theory Spec2Isabelle
  imports Complex_Main
begin

section \<open>Python values used by price_display.py\<close>

text \<open>
  A Python float is modelled by the exact rational value it holds, plus the four
  values that are not rationals. A JSON integer reaches the formatting code as a
  Python int; the format codes \<^verbatim>\<open>,.2f\<close> and \<^verbatim>\<open>+.2f\<close> convert it to a float first, so
  it is modelled by \<open>Finite\<close> as well.
\<close>

datatype pyfloat = Finite rat | NegZero | PosInf | NegInf | NaN

datatype error = ValueError | IndexError | TypeError | AttributeError
  | JSONDecodeError | RequestException | UnicodeEncodeError

text \<open>The values \<^verbatim>\<open>response.json()\<close> returns. A dict keeps its pairs in the order of
  the document; of two pairs with one key the later one counts.\<close>

datatype json = JNull | JBool bool | JNum pyfloat | JStr string
  | JArr "json list" | JObj "(string \<times> json) list"

fun py_gt0 :: "pyfloat \<Rightarrow> bool" where
  "py_gt0 (Finite r) = (0 < r)"
| "py_gt0 PosInf = True"
| "py_gt0 _ = False"

fun py_lt0 :: "pyfloat \<Rightarrow> bool" where
  "py_lt0 (Finite r) = (r < 0)"
| "py_lt0 NegInf = True"
| "py_lt0 _ = False"

fun py_eq0 :: "pyfloat \<Rightarrow> bool" where
  "py_eq0 (Finite r) = (r = 0)"
| "py_eq0 NegZero = True"
| "py_eq0 _ = False"

fun is_finite :: "pyfloat \<Rightarrow> bool" where
  "is_finite (Finite r) = True"
| "is_finite NegZero = True"
| "is_finite _ = False"

section \<open>String operations\<close>

text \<open>\<^verbatim>\<open>s.split(c)\<close> for a separator of one character.\<close>

fun split_on :: "char \<Rightarrow> string \<Rightarrow> string list" where
  "split_on c [] = [[]]"
| "split_on c (x # xs) =
     (if x = c then [] # split_on c xs
      else (case split_on c xs of
              [] \<Rightarrow> [[x]]
            | p # ps \<Rightarrow> (x # p) # ps))"

text \<open>\<^verbatim>\<open>s.replace(c, "")\<close>.\<close>

definition str_remove :: "char \<Rightarrow> string \<Rightarrow> string" where
  "str_remove c s = filter (\<lambda>x. x \<noteq> c) s"

text \<open>\<^verbatim>\<open>s.find(c)\<close>: the index of the first occurrence, or -1.\<close>

fun find_char :: "char \<Rightarrow> string \<Rightarrow> int" where
  "find_char c [] = -1"
| "find_char c (x # xs) =
     (if x = c then 0
      else (let k = find_char c xs in if k = -1 then -1 else k + 1))"

text \<open>Slices \<^verbatim>\<open>s[i:j]\<close> and \<^verbatim>\<open>s[i:]\<close>: a negative index counts from the end, and
  both ends are clamped to the string.\<close>

definition slice_bound :: "nat \<Rightarrow> int \<Rightarrow> nat" where
  "slice_bound n i = (if i < 0 then nat (max 0 (int n + i)) else min n (nat i))"

definition py_slice :: "string \<Rightarrow> int \<Rightarrow> int \<Rightarrow> string" where
  "py_slice s i j =
     (let a = slice_bound (length s) i; b = slice_bound (length s) j
      in take (b - a) (drop a s))"

definition py_slice_from :: "string \<Rightarrow> int \<Rightarrow> string" where
  "py_slice_from s i = drop (slice_bound (length s) i) s"

section \<open>Number formatting\<close>

definition digit_char :: "nat \<Rightarrow> char" where
  "digit_char d = ''0123456789'' ! (d mod 10)"

fun digits_of :: "nat \<Rightarrow> string" where
  "digits_of n =
     (if n < 10 then [digit_char n]
      else digits_of (n div 10) @ [digit_char (n mod 10)])"

declare digits_of.simps [simp del]

text \<open>The \<^verbatim>\<open>,\<close> option: a comma before every group of three digits, counted from
  the right.\<close>

function group_thousands :: "string \<Rightarrow> string" where
  "group_thousands ds =
     (if length ds \<le> 3 then ds
      else group_thousands (take (length ds - 3) ds) @ '','' @ drop (length ds - 3) ds)"
  by pat_completeness auto
termination
  by (relation "measure length") auto

declare group_thousands.simps [simp del]

text \<open>Precision \<^verbatim>\<open>.2f\<close>: the value rounded to hundredths, ties to the even
  neighbour.\<close>

definition round_half_even :: "rat \<Rightarrow> int" where
  "round_half_even x =
     (let f = \<lfloor>x\<rfloor>; d = x - of_int f
      in if d < 1 / 2 then f
         else if 1 / 2 < d then f + 1
         else if even f then f else f + 1)"

definition hundredths :: "rat \<Rightarrow> nat" where
  "hundredths r = nat (round_half_even (\<bar>r\<bar> * 100))"

definition int_digits :: "rat \<Rightarrow> string" where
  "int_digits r = digits_of (hundredths r div 100)"

definition frac_digits :: "rat \<Rightarrow> string" where
  "frac_digits r =
     [digit_char (hundredths r div 10 mod 10), digit_char (hundredths r mod 10)]"

text \<open>\<^verbatim>\<open>f"{x:,.2f}"\<close>\<close>

fun format_comma_2f :: "pyfloat \<Rightarrow> string" where
  "format_comma_2f (Finite r) =
     (if r < 0 then ''-'' else '''') @ group_thousands (int_digits r) @ ''.'' @ frac_digits r"
| "format_comma_2f NegZero = ''-0.00''"
| "format_comma_2f PosInf = ''inf''"
| "format_comma_2f NegInf = ''-inf''"
| "format_comma_2f NaN = ''nan''"

text \<open>\<^verbatim>\<open>f"{x:+.2f}"\<close>\<close>

fun format_plus_2f :: "pyfloat \<Rightarrow> string" where
  "format_plus_2f (Finite r) =
     (if r < 0 then ''-'' else ''+'') @ int_digits r @ ''.'' @ frac_digits r"
| "format_plus_2f NegZero = ''-0.00''"
| "format_plus_2f PosInf = ''+inf''"
| "format_plus_2f NegInf = ''-inf''"
| "format_plus_2f NaN = ''+nan''"

section \<open>Tile texts of create_price_images\<close>

text \<open>The glyphs U+25B2 and U+25BC, as their UTF-8 bytes.\<close>

definition up_arrow :: string where
  "up_arrow = [char_of (226::nat), char_of (150::nat), char_of (178::nat)]"

definition down_arrow :: string where
  "down_arrow = [char_of (226::nat), char_of (150::nat), char_of (188::nat)]"

definition arrow_of :: "int \<Rightarrow> string" where
  "arrow_of trend = (if 0 < trend then up_arrow else if trend < 0 then down_arrow else ''-'')"

text \<open>Lines 71 to 94 of create_price_images: the list \<^verbatim>\<open>tile_texts\<close>. Unpacking
  the split raises ValueError unless it has two parts, and \<^verbatim>\<open>integer_digits[0]\<close>
  raises IndexError on an empty string.\<close>

definition tile_texts :: "pyfloat \<Rightarrow> int \<Rightarrow> pyfloat \<Rightarrow> error + string list" where
  "tile_texts price trend percent_change =
     (let price_str = format_comma_2f price;
          arrow = arrow_of trend
      in case split_on CHR ''.'' price_str of
           [integer_part, decimal_part] \<Rightarrow>
             (let integer_digits = str_remove CHR '','' integer_part
              in case integer_digits of
                   [] \<Rightarrow> Inl IndexError
                 | d0 # _ \<Rightarrow>
                     (let tile1_text = ''$'' @ [d0];
                          comma_index = find_char CHR '','' integer_part;
                          tile2_text =
                            (if comma_index \<noteq> -1
                             then py_slice integer_part 1 (comma_index + 1)
                             else py_slice_from integer_part 1 @ '','');
                          tile3_start_index =
                            1 + int (length (str_remove CHR '','' tile2_text));
                          tile3_digits = py_slice_from integer_digits tile3_start_index;
                          tile3_text = tile3_digits;
                          tile4_text = ''.'' @ decimal_part;
                          tile5_text = format_plus_2f percent_change @ ''%'';
                          tile6_text = arrow
                      in Inr [tile1_text, tile2_text, tile3_text, tile4_text,
                              tile5_text, tile6_text]))
         | _ \<Rightarrow> Inl ValueError)"

definition is_digit :: "char \<Rightarrow> bool" where
  "is_digit c = (c \<in> set ''0123456789'')"

section \<open>Tile bitmaps\<close>

text \<open>
  A bitmap is the canvas of \<^verbatim>\<open>Image.new\<close> (always black here) and the texts drawn on
  it. The font metrics belong to the rendering library: \<^verbatim>\<open>draw.textbbox\<close> is a
  parameter \<open>textbbox\<close>, from the font (path and size) and the text to the box
  (left, top, right, bottom).
\<close>

type_synonym rgb = "nat \<times> nat \<times> nat"
type_synonym font = "string \<times> nat"
type_synonym bbox = "int \<times> int \<times> int \<times> int"

record draw_op =
  pos_x :: int
  pos_y :: int
  op_text :: string
  fill :: rgb
  used_font :: font

record image =
  img_width :: int
  img_height :: int
  drawn :: "draw_op list"

definition REFRESH_INTERVAL :: nat where
  "REFRESH_INTERVAL = 30"

definition FONT_PATH :: string where
  "FONT_PATH = ''DejaVuSansCondensed.ttf''"

definition KEY_WIDTH :: int where
  "KEY_WIDTH = 72"

definition KEY_HEIGHT :: int where
  "KEY_HEIGHT = 72"

definition new_image :: "int \<Rightarrow> int \<Rightarrow> image" where
  "new_image w h = \<lparr>img_width = w, img_height = h, drawn = []\<rparr>"

definition draw_text :: "int \<times> int \<Rightarrow> string \<Rightarrow> rgb \<Rightarrow> font \<Rightarrow> image \<Rightarrow> image" where
  "draw_text xy text color fnt img =
     img\<lparr>drawn := drawn img @
       [\<lparr>pos_x = fst xy, pos_y = snd xy, op_text = text, fill = color, used_font = fnt\<rparr>]\<rparr>"

definition create_tile_image ::
  "(font \<Rightarrow> string \<Rightarrow> bbox) \<Rightarrow> string \<Rightarrow> rgb \<Rightarrow> string \<Rightarrow> nat \<Rightarrow> int \<Rightarrow> int \<Rightarrow> int \<Rightarrow> image" where
  "create_tile_image textbbox text color font_path font_size key_width key_height y_offset =
     (let img = new_image key_width key_height;
          fnt = (font_path, font_size)
      in case textbbox fnt text of (bb_left, bb_top, bb_right, bb_bottom) \<Rightarrow>
           (let text_width = bb_right - bb_left;
                text_height = bb_bottom - bb_top;
                x = (key_width - text_width) div 2;
                y = (key_height - text_height) div 2 - y_offset
            in draw_text (x, y) text color fnt img))"

definition font_sizes :: "nat list" where
  "font_sizes = [42, 42, 37, 39, 20, 48]"

definition trend_color :: "int \<Rightarrow> rgb" where
  "trend_color trend =
     (if 0 < trend then (0, 255, 0) else if trend < 0 then (255, 0, 0) else (255, 255, 255))"

definition y_offset_for_price_and_arrow :: int where
  "y_offset_for_price_and_arrow = 6"

definition create_price_images ::
  "(font \<Rightarrow> string \<Rightarrow> bbox) \<Rightarrow> pyfloat \<Rightarrow> int \<Rightarrow> pyfloat \<Rightarrow> error + image list" where
  "create_price_images textbbox price trend percent_change =
     (case tile_texts price trend percent_change of
        Inl e \<Rightarrow> Inl e
      | Inr texts \<Rightarrow>
          Inr (map (\<lambda>(i, text).
                 if i \<in> set [0, 1, 2, 3, 5]
                 then create_tile_image textbbox text (trend_color trend) FONT_PATH
                        (font_sizes ! i) KEY_WIDTH KEY_HEIGHT y_offset_for_price_and_arrow
                 else create_tile_image textbbox text (trend_color trend) FONT_PATH
                        (font_sizes ! i) KEY_WIDTH KEY_HEIGHT 0)
               (enumerate 0 texts)))"

text \<open>What a bitmap shows, and the vertical position that centres a text on a key.\<close>

definition image_text :: "image \<Rightarrow> string" where
  "image_text img = concat (map op_text (drawn img))"

definition centred_y :: "(font \<Rightarrow> string \<Rightarrow> bbox) \<Rightarrow> font \<Rightarrow> string \<Rightarrow> int" where
  "centred_y textbbox fnt text =
     (case textbbox fnt text of (bb_left, bb_top, bb_right, bb_bottom) \<Rightarrow>
        (KEY_HEIGHT - (bb_bottom - bb_top)) div 2)"

section \<open>The device and the effects of the program\<close>

text \<open>
  The device library is outside the repository. A key write is modelled as an update
  of the key's bitmap, and the conversion \<^verbatim>\<open>PILHelper.to_native_format\<close> is a parameter
  \<open>to_native\<close>. The state holds what the deck shows and, in order, what the program
  printed, how long it slept and which keys it wrote.

  Every message the program prints starts with a glyph outside ASCII (U+1F6AB on line
  36, U+274C on lines 46 and 53, U+1F4B0 on line 156). \<^verbatim>\<open>print\<close> raises UnicodeEncodeError
  when the encoding of stdout lacks these glyphs, as ASCII and the legacy code pages do;
  \<open>stdout_encodes_glyphs\<close> says whether it has them.
\<close>

datatype message = RateLimitHit | UnexpectedResponse json | FetchError error
  | PriceLine string string string

datatype 'n event = Print message | Sleep nat | SetKeyImage nat 'n

record 'n world =
  key_count :: nat
  key_images :: "nat \<Rightarrow> 'n option"
  stdout_encodes_glyphs :: bool
  trace :: "'n event list"

text \<open>The state after a print that went through.\<close>

definition printed :: "message \<Rightarrow> 'n world \<Rightarrow> 'n world" where
  "printed m w = w\<lparr>trace := trace w @ [Print m]\<rparr>"

definition print_msg :: "message \<Rightarrow> 'n world \<Rightarrow> error + 'n world" where
  "print_msg m w =
     (if stdout_encodes_glyphs w then Inr (printed m w) else Inl UnicodeEncodeError)"

definition sleep :: "nat \<Rightarrow> 'n world \<Rightarrow> 'n world" where
  "sleep n w = w\<lparr>trace := trace w @ [Sleep n]\<rparr>"

definition set_key_image :: "nat \<Rightarrow> 'n \<Rightarrow> 'n world \<Rightarrow> 'n world" where
  "set_key_image key img w =
     w\<lparr>key_images := (key_images w)(key \<mapsto> img), trace := trace w @ [SetKeyImage key img]\<rparr>"

section \<open>fetch_price_and_trend\<close>

text \<open>What \<^verbatim>\<open>requests.get\<close> and \<^verbatim>\<open>response.json()\<close> give: the request raises, or there is
  a status code and a body that parses (\<open>Some\<close>) or does not (\<open>None\<close>).\<close>

datatype http_outcome = RequestFailed | Response nat "json option"

text \<open>\<^verbatim>\<open>d.get(key, default)\<close>; anything but a dict has no \<^verbatim>\<open>get\<close>.\<close>

fun py_get :: "json \<Rightarrow> string \<Rightarrow> json \<Rightarrow> error + json" where
  "py_get (JObj kvs) k dflt =
     Inr (case map_of (rev kvs) k of None \<Rightarrow> dflt | Some v \<Rightarrow> v)"
| "py_get _ k dflt = Inl AttributeError"

text \<open>\<^verbatim>\<open>x > 0\<close> and \<^verbatim>\<open>x < 0\<close> on a parsed value other than None.\<close>

fun json_gt0 :: "json \<Rightarrow> error + bool" where
  "json_gt0 (JNum x) = Inr (py_gt0 x)"
| "json_gt0 (JBool b) = Inr b"
| "json_gt0 _ = Inl TypeError"

fun json_lt0 :: "json \<Rightarrow> error + bool" where
  "json_lt0 (JNum x) = Inr (py_lt0 x)"
| "json_lt0 (JBool b) = Inr False"
| "json_lt0 _ = Inl TypeError"

text \<open>Line 49.\<close>

definition classify_trend :: "json \<Rightarrow> error + int" where
  "classify_trend change_24h =
     (case json_gt0 change_24h of
        Inl e \<Rightarrow> Inl e
      | Inr True \<Rightarrow> Inr 1
      | Inr False \<Rightarrow>
          (case json_lt0 change_24h of
             Inl e \<Rightarrow> Inl e
           | Inr True \<Rightarrow> Inr (- 1)
           | Inr False \<Rightarrow> Inr 0))"

text \<open>The tuple \<^verbatim>\<open>(None, 0, 0)\<close>.\<close>

definition unavailable :: "json \<times> int \<times> json" where
  "unavailable = (JNull, 0, JNum (Finite 0))"

text \<open>The body of the \<^verbatim>\<open>try\<close>: \<open>Inl\<close> is an exception raised inside it, also by one
  of its own prints.\<close>

definition fetch_try ::
  "http_outcome \<Rightarrow> 'n world \<Rightarrow> (error + json \<times> int \<times> json) \<times> 'n world" where
  "fetch_try outcome w =
     (case outcome of
        RequestFailed \<Rightarrow> (Inl RequestException, w)
      | Response status_code body \<Rightarrow>
          if status_code = 429
          then (case print_msg RateLimitHit w of
                  Inl e \<Rightarrow> (Inl e, w)
                | Inr w1 \<Rightarrow> (Inr unavailable, sleep 60 w1))
          else (case body of
                  None \<Rightarrow> (Inl JSONDecodeError, w)
                | Some data \<Rightarrow>
                    (case py_get data ''bitcoin'' (JObj []) of
                       Inl e \<Rightarrow> (Inl e, w)
                     | Inr btc \<Rightarrow>
                         (case py_get btc ''usd'' JNull of
                            Inl e \<Rightarrow> (Inl e, w)
                          | Inr price \<Rightarrow>
                              (case py_get btc ''usd_24h_change'' JNull of
                                 Inl e \<Rightarrow> (Inl e, w)
                               | Inr change_24h \<Rightarrow>
                                   if price = JNull \<or> change_24h = JNull
                                   then (case print_msg (UnexpectedResponse data) w of
                                           Inl e \<Rightarrow> (Inl e, w)
                                         | Inr w1 \<Rightarrow> (Inr unavailable, w1))
                                   else (case classify_trend change_24h of
                                           Inl e \<Rightarrow> (Inl e, w)
                                         | Inr trend \<Rightarrow>
                                             (Inr (price, trend, change_24h), w)))))))"

text \<open>The whole function: the \<^verbatim>\<open>except\<close> clause catches what the body raised, prints
  and returns. \<open>Inl\<close> is an exception that reaches the caller: the one that the print
  of the clause itself raises.\<close>

definition fetch_price_and_trend ::
  "http_outcome \<Rightarrow> 'n world \<Rightarrow> (error + json \<times> int \<times> json) \<times> 'n world" where
  "fetch_price_and_trend outcome w =
     (case fetch_try outcome w of
        (Inr result, w') \<Rightarrow> (Inr result, w')
      | (Inl e, w') \<Rightarrow>
          (case print_msg (FetchError e) w' of
             Inl e' \<Rightarrow> (Inl e', w')
           | Inr w'' \<Rightarrow> (Inr unavailable, w'')))"

section \<open>Device sink and driver loop\<close>

definition key_map :: "nat list" where
  "key_map = [5, 6, 7, 8, 4, 9]"

fun push_loop :: "(image \<Rightarrow> 'n) \<Rightarrow> (nat \<times> image) list \<Rightarrow> 'n world \<Rightarrow> error + 'n world" where
  "push_loop to_native [] w = Inr w"
| "push_loop to_native ((i, img) # rest) w =
     (if i < length key_map
      then push_loop to_native rest (set_key_image (key_map ! i) (to_native img) w)
      else Inl IndexError)"

definition push_to_streamdeck_tile_images ::
  "(image \<Rightarrow> 'n) \<Rightarrow> 'n world \<Rightarrow> image list \<Rightarrow> error + 'n world" where
  "push_to_streamdeck_tile_images to_native deck tile_images =
     push_loop to_native (enumerate 0 tile_images) deck"

definition str_of_int :: "int \<Rightarrow> string" where
  "str_of_int i = (if i < 0 then ''-'' else []) @ digits_of (nat \<bar>i\<bar>)"

definition update_timer ::
  "(font \<Rightarrow> string \<Rightarrow> bbox) \<Rightarrow> (image \<Rightarrow> 'n) \<Rightarrow> 'n world \<Rightarrow> int \<Rightarrow> 'n world" where
  "update_timer textbbox to_native deck seconds_left =
     (let fnt = (FONT_PATH, 20);
          img = new_image KEY_WIDTH KEY_HEIGHT;
          text = str_of_int seconds_left @ ''s''
      in case textbbox fnt text of (bb_left, bb_top, bb_right, bb_bottom) \<Rightarrow>
           (let text_width = bb_right - bb_left;
                text_height = bb_bottom - bb_top;
                x = (KEY_WIDTH - text_width) div 2;
                y = (KEY_HEIGHT - text_height) div 2
            in set_key_image 10
                 (to_native (draw_text (x, y) text (255, 255, 255) fnt img)) deck))"

definition blank_img :: image where
  "blank_img = new_image KEY_WIDTH KEY_HEIGHT"

definition fill_unused_keys :: "(image \<Rightarrow> 'n) \<Rightarrow> 'n world \<Rightarrow> nat list \<Rightarrow> 'n world" where
  "fill_unused_keys to_native deck used_keys =
     (let blank_native = to_native blank_img
      in fold (\<lambda>key d. if key \<notin> set used_keys then set_key_image key blank_native d else d)
           [0..<key_count deck] deck)"

text \<open>The formats of line 156 raise on a value that is not a number.\<close>

fun as_float :: "json \<Rightarrow> error + pyfloat" where
  "as_float (JNum x) = Inr x"
| "as_float (JBool b) = Inr (Finite (if b then 1 else 0))"
| "as_float (JStr s) = Inl ValueError"
| "as_float _ = Inl TypeError"

text \<open>Lines 164 to 166: the countdown from the refresh interval down to 1.\<close>

definition countdown ::
  "(font \<Rightarrow> string \<Rightarrow> bbox) \<Rightarrow> (image \<Rightarrow> 'n) \<Rightarrow> 'n world \<Rightarrow> 'n world" where
  "countdown textbbox to_native deck =
     fold (\<lambda>i d. sleep 1 (update_timer textbbox to_native d (int i)))
       (rev [1..<Suc REFRESH_INTERVAL]) deck"

definition used_keys_main :: "nat list" where
  "used_keys_main = [4, 5, 6, 7, 8, 9, 10]"

text \<open>One pass through the body of \<^verbatim>\<open>while True\<close> in main, for the outcome of this
  pass's request. \<open>Inl\<close> is an exception that leaves main. The deck is the first one
  that main found and opened before the loop; rendering reads only the font, so it
  leaves no event in the trace.\<close>

definition main_iteration ::
  "(font \<Rightarrow> string \<Rightarrow> bbox) \<Rightarrow> (image \<Rightarrow> 'n) \<Rightarrow> http_outcome \<Rightarrow> 'n world \<Rightarrow> error + 'n world" where
  "main_iteration textbbox to_native outcome deck =
     (case fetch_price_and_trend outcome deck of
        (Inl e, d1) \<Rightarrow> Inl e
      | (Inr (price, trend, percent_change), d1) \<Rightarrow>
          if price = JNull then Inr (sleep REFRESH_INTERVAL d1)
          else
            (case as_float price of
               Inl e \<Rightarrow> Inl e
             | Inr p \<Rightarrow>
                 (case as_float percent_change of
                    Inl e \<Rightarrow> Inl e
                  | Inr c \<Rightarrow>
                      (case print_msg (PriceLine (format_comma_2f p)
                                  (format_plus_2f c) (arrow_of trend)) d1 of
                         Inl e \<Rightarrow> Inl e
                       | Inr d2 \<Rightarrow>
                           (case create_price_images textbbox p trend c of
                              Inl e \<Rightarrow> Inl e
                            | Inr tile_images \<Rightarrow>
                                (case push_to_streamdeck_tile_images to_native d2 tile_images of
                                   Inl e \<Rightarrow> Inl e
                                 | Inr d3 \<Rightarrow>
                                     Inr (countdown textbbox to_native
                                            (fill_unused_keys to_native d3 used_keys_main))))))))"

text \<open>The loop, run for as many passes as there are request outcomes.\<close>

fun main_loop ::
  "(font \<Rightarrow> string \<Rightarrow> bbox) \<Rightarrow> (image \<Rightarrow> 'n) \<Rightarrow> http_outcome list \<Rightarrow> 'n world \<Rightarrow> error + 'n world" where
  "main_loop textbbox to_native [] deck = Inr deck"
| "main_loop textbbox to_native (outcome # rest) deck =
     (case main_iteration textbbox to_native outcome deck of
        Inl e \<Rightarrow> Inl e
      | Inr deck' \<Rightarrow> main_loop textbbox to_native rest deck')"

section \<open>Auxiliary notions for the properties\<close>

text \<open>The two parts of a formatted finite number, before and after the point.\<close>

fun integer_part_of :: "pyfloat \<Rightarrow> string" where
  "integer_part_of (Finite r) = (if r < 0 then ''-'' else []) @ group_thousands (int_digits r)"
| "integer_part_of NegZero = ''-0''"
| "integer_part_of _ = []"

fun decimal_part_of :: "pyfloat \<Rightarrow> string" where
  "decimal_part_of (Finite r) = frac_digits r"
| "decimal_part_of NegZero = ''00''"
| "decimal_part_of _ = []"

text \<open>A text box for examples: every glyph half as wide as the font size.\<close>

definition sample_textbbox :: "font \<Rightarrow> string \<Rightarrow> bbox" where
  "sample_textbbox fnt text = (0, 0, int (length text) * int (snd fnt) div 2, int (snd fnt))"

text \<open>The texts of the tiles returned, none when the call raised.\<close>

definition rendered_texts :: "error + image list \<Rightarrow> string list" where
  "rendered_texts res = (case res of Inl e \<Rightarrow> [] | Inr imgs \<Rightarrow> map image_text imgs)"

text \<open>How far above the centred position the text of a tile is drawn.\<close>

definition vertical_offset :: "(font \<Rightarrow> string \<Rightarrow> bbox) \<Rightarrow> image \<Rightarrow> int" where
  "vertical_offset textbbox img =
     (case drawn img of
        [d] \<Rightarrow> centred_y textbbox (used_font d) (op_text d) - pos_y d
      | _ \<Rightarrow> 0)"

definition tile_offsets :: "(font \<Rightarrow> string \<Rightarrow> bbox) \<Rightarrow> error + image list \<Rightarrow> int list" where
  "tile_offsets textbbox res =
     (case res of Inl e \<Rightarrow> [] | Inr imgs \<Rightarrow> map (vertical_offset textbbox) imgs)"

fun is_device_write :: "'n event \<Rightarrow> bool" where
  "is_device_write (SetKeyImage k img) = True"
| "is_device_write _ = False"

text \<open>A deck of fifteen keys that shows nothing yet, for examples: once with a stdout
  in UTF-8, once with a stdout in ASCII.\<close>

definition sample_deck :: "image world" where
  "sample_deck =
     \<lparr>key_count = 15, key_images = Map.empty, stdout_encodes_glyphs = True, trace = []\<rparr>"

definition ascii_stdout_deck :: "image world" where
  "ascii_stdout_deck =
     \<lparr>key_count = 15, key_images = Map.empty, stdout_encodes_glyphs = False, trace = []\<rparr>"

section \<open>Strings and number formats\<close>

lemma is_digit_digit_char: "is_digit (digit_char d)"
  unfolding is_digit_def digit_char_def by (rule nth_mem) simp

lemma str_remove_id: "c \<notin> set s \<Longrightarrow> str_remove c s = s"
  by (induction s) (auto simp: str_remove_def)

lemma digits_of_nonempty: "digits_of n \<noteq> []"
  by (subst digits_of.simps) simp

lemma digits_of_digits: "c \<in> set (digits_of n) \<Longrightarrow> is_digit c"
proof (induction n arbitrary: c rule: digits_of.induct)
  case (1 n)
  show ?case
  proof (cases "n < 10")
    case True
    with "1.prems" show ?thesis
      by (subst (asm) digits_of.simps) (simp add: is_digit_digit_char)
  next
    case False
    with "1.prems" have "c \<in> set (digits_of (n div 10)) \<or> c = digit_char (n mod 10)"
      by (subst (asm) digits_of.simps) auto
    with False "1.IH" show ?thesis
      by (auto simp: is_digit_digit_char)
  qed
qed

lemma group_thousands_set: "set (group_thousands ds) \<subseteq> insert CHR '','' (set ds)"
proof (induction ds rule: group_thousands.induct)
  case (1 ds)
  show ?case
  proof (cases "length ds \<le> 3")
    case True
    then show ?thesis by (subst group_thousands.simps) auto
  next
    case False
    have "set (take (length ds - 3) ds) \<subseteq> set ds" by (rule set_take_subset)
    moreover have "set (drop (length ds - 3) ds) \<subseteq> set ds" by (rule set_drop_subset)
    ultimately show ?thesis using False "1.IH"
      by (subst group_thousands.simps) auto
  qed
qed

lemma group_thousands_remove:
  "CHR '','' \<notin> set ds \<Longrightarrow> str_remove CHR '','' (group_thousands ds) = ds"
proof (induction ds rule: group_thousands.induct)
  case (1 ds)
  show ?case
  proof (cases "length ds \<le> 3")
    case True
    with "1.prems" show ?thesis
      by (subst group_thousands.simps) (simp add: str_remove_id)
  next
    case False
    have a: "CHR '','' \<notin> set (take (length ds - 3) ds)"
      using "1.prems" set_take_subset by fastforce
    have b: "CHR '','' \<notin> set (drop (length ds - 3) ds)"
      using "1.prems" set_drop_subset by fastforce
    have "str_remove CHR '','' (group_thousands (take (length ds - 3) ds)) = take (length ds - 3) ds"
      using "1.IH" False a by simp
    moreover have "str_remove CHR '','' (drop (length ds - 3) ds) = drop (length ds - 3) ds"
      using b by (simp add: str_remove_id)
    ultimately show ?thesis using False
      by (subst group_thousands.simps) (simp add: str_remove_def)
  qed
qed

lemma group_thousands_hd:
  "ds \<noteq> [] \<Longrightarrow> group_thousands ds \<noteq> [] \<and> hd (group_thousands ds) = hd ds"
proof (induction ds rule: group_thousands.induct)
  case (1 ds)
  show ?case
  proof (cases "length ds \<le> 3")
    case True
    with "1.prems" show ?thesis by (subst (1 2) group_thousands.simps) simp
  next
    case False
    then have ne: "take (length ds - 3) ds \<noteq> []" by auto
    with "1.IH" False have ih: "group_thousands (take (length ds - 3) ds) \<noteq> []"
      "hd (group_thousands (take (length ds - 3) ds)) = hd (take (length ds - 3) ds)"
      by auto
    have "hd (take (length ds - 3) ds) = hd ds" using ne by (cases ds) auto
    with ih False show ?thesis
      by (subst (1 2) group_thousands.simps) simp
  qed
qed

lemma split_on_none: "c \<notin> set s \<Longrightarrow> split_on c s = [s]"
  by (induction s) auto

lemma split_on_once:
  "c \<notin> set a \<Longrightarrow> c \<notin> set b \<Longrightarrow> split_on c (a @ c # b) = [a, b]"
  by (induction a) (auto simp: split_on_none)

lemma find_char_eq:
  "find_char c s = (if c \<in> set s then int (length (takeWhile (\<lambda>x. x \<noteq> c) s)) else -1)"
  by (induction s) (auto simp: Let_def)


lemma find_char_absent: "c \<notin> set s \<Longrightarrow> find_char c s = -1"
  by (induction s) auto

lemma find_char_first:
  "c \<notin> set pre \<Longrightarrow> find_char c (pre @ c # rest) = int (length pre)"
  by (induction pre) (auto simp: Let_def)

lemma slice_bound_nat: "slice_bound n (int k) = min n k"
  by (simp add: slice_bound_def)

lemma slice_from_1: "py_slice_from (x # t) 1 = t"
  using slice_bound_nat [of "length (x # t)" 1] by (simp add: py_slice_from_def)

lemma slice_from_len: "py_slice_from (a @ b) (int (length a)) = b"
  by (simp add: py_slice_from_def slice_bound_nat)

lemma slice_from_len1: "py_slice_from ((x # p) @ b) (1 + int (length p)) = b"
  using slice_from_len [of "x # p" b] by (simp add: add.commute)

lemma slice_to_comma:
  "py_slice ((x # p) @ c # rest) 1 (int (length (x # p)) + 1) = p @ [c]"
proof -
  have a: "slice_bound (length ((x # p) @ c # rest)) 1 = 1"
    using slice_bound_nat [of "length ((x # p) @ c # rest)" 1] by simp
  have "int (length (x # p)) + 1 = int (length p + 2)" by simp
  then have b: "slice_bound (length ((x # p) @ c # rest)) (int (length (x # p)) + 1) = length p + 2"
    by (simp only: slice_bound_nat) simp
  show ?thesis
    unfolding py_slice_def Let_def a b by simp
qed

lemma str_remove_append: "str_remove c (a @ b) = str_remove c a @ str_remove c b"
  by (simp add: str_remove_def)

lemma str_remove_sep: "str_remove c (c # b) = str_remove c b"
  by (simp add: str_remove_def)

lemma str_remove_last: "c \<notin> set p \<Longrightarrow> str_remove c (p @ [c]) = p"
  by (simp add: str_remove_append str_remove_id) (simp add: str_remove_def)

lemma tile_texts_no_comma:
  assumes sp: "split_on CHR ''.'' (format_comma_2f price) = [d0 # t, dp]"
    and nc: "CHR '','' \<notin> set (d0 # t)"
  shows "tile_texts price trend pc =
    Inr [''$'' @ [d0], t @ '','', [], ''.'' @ dp, format_plus_2f pc @ ''%'', arrow_of trend]"
proof -
  have rm: "str_remove CHR '','' (d0 # t) = d0 # t"
    using nc by (rule str_remove_id)
  have fc: "find_char CHR '','' (d0 # t) = -1"
    using nc by (rule find_char_absent)
  have nt: "CHR '','' \<notin> set t" using nc by simp
  have r2: "str_remove CHR '','' (t @ '','') = t"
    using nt by (rule str_remove_last)
  have t3: "py_slice_from (d0 # t) (1 + int (length t)) = []"
    using slice_from_len1 [of d0 t "[]"] by simp
  have c: "((-1::int) \<noteq> -1) = False" by simp
  show ?thesis
    by (simp only: tile_texts_def Let_def sp list.case rm fc c if_False slice_from_1 r2 t3)
qed

lemma tile_texts_comma:
  assumes sp: "split_on CHR ''.'' (format_comma_2f price) = [(d0 # p) @ CHR '','' # rest, dp]"
    and nc: "CHR '','' \<notin> set (d0 # p)"
  shows "tile_texts price trend pc =
    Inr [''$'' @ [d0], p @ '','', str_remove CHR '','' rest, ''.'' @ dp,
         format_plus_2f pc @ ''%'', arrow_of trend]"
proof -
  have rm: "str_remove CHR '','' ((d0 # p) @ CHR '','' # rest) = d0 # (p @ str_remove CHR '','' rest)"
  proof -
    have "str_remove CHR '','' ((d0 # p) @ CHR '','' # rest)
        = str_remove CHR '','' (d0 # p) @ str_remove CHR '','' (CHR '','' # rest)"
      by (rule str_remove_append)
    then show ?thesis
      by (simp only: str_remove_id [OF nc] str_remove_sep append_Cons)
  qed
  have fc: "find_char CHR '','' ((d0 # p) @ CHR '','' # rest) = int (length (d0 # p))"
    using nc by (rule find_char_first)
  have nt: "CHR '','' \<notin> set p" using nc by simp
  have r2: "str_remove CHR '','' (p @ '','') = p"
    using nt by (rule str_remove_last)
  have t3: "py_slice_from (d0 # (p @ str_remove CHR '','' rest)) (1 + int (length p))
      = str_remove CHR '','' rest"
    using slice_from_len1 [of d0 p "str_remove CHR '','' rest"] by simp
  have t2: "py_slice ((d0 # p) @ CHR '','' # rest) 1 (int (length (d0 # p)) + 1) = p @ '',''"
    by (rule slice_to_comma)
  have c: "(int (length (d0 # p)) \<noteq> -1) = True" by simp
  show ?thesis
    by (simp only: tile_texts_def Let_def sp list.case rm fc c if_True t2 r2 t3)
qed

lemma not_digit_chars:
  "\<not> is_digit CHR ''.''" "\<not> is_digit CHR '',''" "\<not> is_digit CHR ''-''"
  "\<not> is_digit CHR ''$''" "\<not> is_digit CHR ''+''" "\<not> is_digit CHR ''%''"
  by (simp_all add: is_digit_def)

lemma int_digits_nonempty: "int_digits r \<noteq> []"
  by (simp add: int_digits_def digits_of_nonempty)

lemma int_digits_digits: "c \<in> set (int_digits r) \<Longrightarrow> is_digit c"
  unfolding int_digits_def by (rule digits_of_digits)

lemma frac_digits_digits: "c \<in> set (frac_digits r) \<Longrightarrow> is_digit c"
  unfolding frac_digits_def by (auto simp: is_digit_digit_char)

lemma grouped_chars:
  assumes "c \<in> set (group_thousands (int_digits r))"
  shows "is_digit c \<or> c = CHR '',''"
  using assms group_thousands_set [of "int_digits r"] int_digits_digits [of c r] by auto

lemma grouped_hd:
  "group_thousands (int_digits r) \<noteq> [] \<and> is_digit (hd (group_thousands (int_digits r)))"
proof -
  have ne: "int_digits r \<noteq> []" by (rule int_digits_nonempty)
  then have "hd (int_digits r) \<in> set (int_digits r)" by simp
  then have "is_digit (hd (int_digits r))" by (rule int_digits_digits)
  with group_thousands_hd [OF ne] show ?thesis by simp
qed

lemma format_parts:
  "is_finite price \<Longrightarrow>
     format_comma_2f price = integer_part_of price @ ''.'' @ decimal_part_of price"
  by (cases price) auto

lemma integer_part_chars:
  assumes "is_finite price" "c \<in> set (integer_part_of price)"
  shows "is_digit c \<or> c = CHR '','' \<or> c = CHR ''-''"
proof (cases price)
  case (Finite r)
  with assms(2) have "c = CHR ''-'' \<or> c \<in> set (group_thousands (int_digits r))"
    by (auto split: if_splits)
  then show ?thesis using grouped_chars [of c r] by blast
next
  case NegZero
  have "is_digit CHR ''0''" by (simp add: is_digit_def)
  with NegZero assms(2) show ?thesis by auto
qed (use assms in simp_all)

lemma integer_part_hd:
  assumes "is_finite price"
  shows "integer_part_of price \<noteq> [] \<and> hd (integer_part_of price) \<noteq> CHR '',''"
proof (cases price)
  case (Finite r)
  with grouped_hd [of r] not_digit_chars(2) show ?thesis
    by (cases "r < 0") auto
qed (use assms in auto)

lemma decimal_part_chars:
  assumes "is_finite price"
  shows "length (decimal_part_of price) = 2 \<and> (\<forall>c\<in>set (decimal_part_of price). is_digit c)"
proof (cases price)
  case (Finite r)
  then show ?thesis by (simp add: frac_digits_def is_digit_digit_char)
next
  case NegZero
  have "is_digit CHR ''0''" by (simp add: is_digit_def)
  with NegZero show ?thesis by simp
qed (use assms in simp_all)

lemma format_split:
  assumes "is_finite price"
  shows "split_on CHR ''.'' (format_comma_2f price) = [integer_part_of price, decimal_part_of price]"
proof -
  have a: "CHR ''.'' \<notin> set (integer_part_of price)"
    using integer_part_chars [OF assms, of "CHR ''.''"] not_digit_chars(1) by auto
  have b: "CHR ''.'' \<notin> set (decimal_part_of price)"
    using decimal_part_chars [OF assms] not_digit_chars(1) by auto
  show ?thesis
    using split_on_once [OF a b] format_parts [OF assms] by simp
qed

lemma tile_texts_shape:
  assumes sp: "split_on CHR ''.'' (format_comma_2f price) = [ip, dp]"
    and ne: "ip \<noteq> []" and hc: "hd ip \<noteq> CHR '',''"
  shows "\<exists>p rest.
      tile_texts price trend pc =
        Inr [''$'' @ [hd ip], p @ '','', rest, ''.'' @ dp,
             format_plus_2f pc @ ''%'', arrow_of trend]
      \<and> CHR '','' \<notin> set p \<and> CHR '','' \<notin> set rest
      \<and> hd ip # p @ rest = str_remove CHR '','' ip
      \<and> (CHR '','' \<notin> set ip \<longrightarrow> p = tl ip \<and> rest = [])"
proof (cases "CHR '','' \<in> set ip")
  case False
  from ne obtain d0 t where ip: "ip = d0 # t" by (cases ip) auto
  have nc: "CHR '','' \<notin> set (d0 # t)" using False ip by simp
  have "tile_texts price trend pc =
      Inr [''$'' @ [d0], t @ '','', [], ''.'' @ dp, format_plus_2f pc @ ''%'', arrow_of trend]"
    using sp nc unfolding ip by (rule tile_texts_no_comma)
  moreover have "d0 # t @ [] = str_remove CHR '','' ip"
    using str_remove_id [OF nc] ip by simp
  ultimately show ?thesis using nc ip by auto
next
  case True
  then obtain ys zs where dec: "ip = ys @ CHR '','' # zs" and nys: "CHR '','' \<notin> set ys"
    by (auto dest: split_list_first)
  from hc dec obtain d0 p where ys: "ys = d0 # p" by (cases ys) auto
  have nc: "CHR '','' \<notin> set (d0 # p)" using nys ys by simp
  have ip: "ip = (d0 # p) @ CHR '','' # zs" using dec ys by simp
  have tt: "tile_texts price trend pc =
      Inr [''$'' @ [d0], p @ '','', str_remove CHR '','' zs, ''.'' @ dp,
           format_plus_2f pc @ ''%'', arrow_of trend]"
    using sp nc unfolding ip by (rule tile_texts_comma)
  have r: "CHR '','' \<notin> set (str_remove CHR '','' zs)" by (simp add: str_remove_def)
  have "str_remove CHR '','' ip = str_remove CHR '','' (d0 # p) @ str_remove CHR '','' (CHR '','' # zs)"
    unfolding ip by (rule str_remove_append)
  then have e: "d0 # p @ str_remove CHR '','' zs = str_remove CHR '','' ip"
    by (simp only: str_remove_id [OF nc] str_remove_sep append_Cons)
  have h: "hd ip = d0" using ip by simp
  show ?thesis using tt nc r e True unfolding h by auto
qed

lemma image_text_tile:
  "image_text (create_tile_image textbbox text col fp fs kw kh yo) = text"
  by (simp add: image_text_def create_tile_image_def draw_text_def new_image_def Let_def
      split: prod.splits)

lemma create_price_images_texts:
  assumes "tile_texts price trend pc = Inr texts"
  shows "\<exists>imgs. create_price_images textbbox price trend pc = Inr imgs
           \<and> map image_text imgs = texts"
proof -
  let ?f = "\<lambda>(i, text).
      if i \<in> set [0, 1, 2, 3, 5]
      then create_tile_image textbbox text (trend_color trend) FONT_PATH
             (font_sizes ! i) KEY_WIDTH KEY_HEIGHT y_offset_for_price_and_arrow
      else create_tile_image textbbox text (trend_color trend) FONT_PATH
             (font_sizes ! i) KEY_WIDTH KEY_HEIGHT 0"
  have c: "create_price_images textbbox price trend pc = Inr (map ?f (enumerate 0 texts))"
    unfolding create_price_images_def assms by simp
  have "map image_text (map ?f (enumerate 0 texts)) = map snd (enumerate 0 texts)"
    unfolding map_map by (rule map_cong) (auto simp: image_text_tile)
  then have "map image_text (map ?f (enumerate 0 texts)) = texts"
    by (simp only: map_snd_enumerate)
  with c show ?thesis by blast
qed

lemma create_price_images_error:
  "tile_texts price trend pc = Inl e \<Longrightarrow> create_price_images textbbox price trend pc = Inl e"
  by (simp add: create_price_images_def)

lemma filter_digit_remove:
  "\<not> is_digit c \<Longrightarrow> filter is_digit (str_remove c s) = filter is_digit s"
  by (induction s) (auto simp: str_remove_def)

lemma kept_chars:
  assumes "is_digit c \<or> c = CHR ''-''"
  shows "c \<noteq> CHR ''$''" "c \<noteq> CHR '',''" "c \<noteq> CHR ''.''"
  using assms by (auto simp: is_digit_def)

lemma price_tiles_digits:
  assumes fin: "is_finite price"
  shows "\<exists>imgs. create_price_images textbbox price trend pc = Inr imgs \<and> length imgs = 6
     \<and> filter is_digit (concat (map image_text (take 4 imgs)))
         = filter is_digit (format_comma_2f price)
     \<and> filter (\<lambda>c. c \<notin> {CHR ''$'', CHR '','', CHR ''.''}) (concat (map image_text (take 4 imgs)))
         = filter (\<lambda>c. c \<notin> {CHR '','', CHR ''.''}) (format_comma_2f price)"
proof -
  define ip where "ip = integer_part_of price"
  define dp where "dp = decimal_part_of price"
  have sp: "split_on CHR ''.'' (format_comma_2f price) = [ip, dp]"
    unfolding ip_def dp_def using fin by (rule format_split)
  have fm: "format_comma_2f price = ip @ CHR ''.'' # dp"
    unfolding ip_def dp_def using format_parts [OF fin] by simp
  have ne: "ip \<noteq> []" and hc: "hd ip \<noteq> CHR '',''"
    unfolding ip_def using integer_part_hd [OF fin] by simp_all
  have ipc: "\<And>c. c \<in> set ip \<Longrightarrow> is_digit c \<or> c = CHR '','' \<or> c = CHR ''-''"
    unfolding ip_def using fin by (rule integer_part_chars)
  have dpc: "\<And>c. c \<in> set dp \<Longrightarrow> is_digit c"
    unfolding dp_def using decimal_part_chars [OF fin] by simp
  from tile_texts_shape [OF sp ne hc, of trend pc] obtain p rest where
    pr: "tile_texts price trend pc =
        Inr [''$'' @ [hd ip], p @ '','', rest, ''.'' @ dp,
             format_plus_2f pc @ ''%'', arrow_of trend]
      \<and> CHR '','' \<notin> set p \<and> CHR '','' \<notin> set rest
      \<and> hd ip # p @ rest = str_remove CHR '','' ip
      \<and> (CHR '','' \<notin> set ip \<longrightarrow> p = tl ip \<and> rest = [])"
    by (elim exE)
  define texts where "texts = [''$'' @ [hd ip], p @ '','', rest, ''.'' @ dp,
             format_plus_2f pc @ ''%'', arrow_of trend]"
  have tt: "tile_texts price trend pc = Inr texts"
    unfolding texts_def using pr by (rule conjunct1)
  have eq: "hd ip # p @ rest = str_remove CHR '','' ip"
    using pr by (elim conjE)
  from create_price_images_texts [OF tt, of textbbox] obtain imgs where
    ci: "create_price_images textbbox price trend pc = Inr imgs"
    and mt0: "map image_text imgs = texts"
    by (elim exE conjE)
  note mt = mt0 [unfolded texts_def]
  have "length (map image_text imgs) = 6" unfolding mt by simp
  then have len: "length imgs = 6" by simp
  define ys where "ys = hd ip # p"
  have yr: "ys @ rest = str_remove CHR '','' ip" unfolding ys_def using eq by simp
  have "map image_text (take 4 imgs) = take 4 (map image_text imgs)" by (simp add: take_map)
  then have "map image_text (take 4 imgs) = [''$'' @ [hd ip], p @ '','', rest, ''.'' @ dp]"
    unfolding mt by simp
  then have cc: "concat (map image_text (take 4 imgs))
      = CHR ''$'' # ys @ CHR '','' # rest @ CHR ''.'' # dp"
    unfolding ys_def by simp
  have d1: "filter is_digit (concat (map image_text (take 4 imgs)))
      = filter is_digit (ys @ rest) @ filter is_digit dp"
    unfolding cc by (simp add: not_digit_chars)
  have d2: "filter is_digit (format_comma_2f price) = filter is_digit ip @ filter is_digit dp"
    unfolding fm by (simp add: not_digit_chars)
  have d3: "filter is_digit (ys @ rest) = filter is_digit ip"
    unfolding yr using not_digit_chars(2) by (rule filter_digit_remove)
  have digits: "filter is_digit (concat (map image_text (take 4 imgs)))
      = filter is_digit (format_comma_2f price)"
    unfolding d1 d2 d3 ..
  let ?Q = "\<lambda>c. c \<notin> {CHR ''$'', CHR '','', CHR ''.''}"
  let ?R = "\<lambda>c. c \<notin> {CHR '','', CHR ''.''}"
  have yrc: "\<And>c. c \<in> set (ys @ rest) \<Longrightarrow> is_digit c \<or> c = CHR ''-''"
    unfolding yr str_remove_def using ipc by auto
  have q1: "filter ?Q (ys @ rest) = ys @ rest"
    using yrc kept_chars by (intro filter_True) blast
  have q2: "filter ?Q dp = dp"
    using dpc kept_chars by (intro filter_True) blast
  have "filter ?Q (concat (map image_text (take 4 imgs))) = filter ?Q (ys @ rest) @ filter ?Q dp"
    unfolding cc by simp
  then have q3: "filter ?Q (concat (map image_text (take 4 imgs))) = (ys @ rest) @ dp"
    unfolding q1 q2 .
  have nd: "CHR ''.'' \<notin> set ip"
    using ipc not_digit_chars(1) by auto
  have r1: "filter ?R ip = str_remove CHR '','' ip"
    unfolding str_remove_def using nd by (intro filter_cong) auto
  have r2: "filter ?R dp = dp"
    using dpc kept_chars by (intro filter_True) blast
  have "filter ?R (format_comma_2f price) = filter ?R ip @ filter ?R dp"
    unfolding fm by simp
  then have r3: "filter ?R (format_comma_2f price) = (ys @ rest) @ dp"
    unfolding r1 r2 yr .
  show ?thesis using ci len digits q3 r3 by simp
qed

lemma hundredths_123456: "hundredths (123456 / 100) = 123456"
  by (simp add: hundredths_def round_half_even_def)

lemma int_digits_123456: "int_digits (123456 / 100) = ''1234''"
  unfolding int_digits_def hundredths_123456
  by (simp add: digits_of.simps digit_char_def)

lemma frac_digits_123456: "frac_digits (123456 / 100) = ''56''"
  unfolding frac_digits_def hundredths_123456
  by (simp add: digit_char_def)

lemma group_1234: "group_thousands ''1234'' = ''1,234''"
  by (simp add: group_thousands.simps)

lemma split_123456:
  "split_on CHR ''.'' (format_comma_2f (Finite (123456 / 100))) = [''1,234'', ''56'']"
proof -
  have "is_finite (Finite (123456 / 100))" by simp
  then have "split_on CHR ''.'' (format_comma_2f (Finite (123456 / 100)))
      = [integer_part_of (Finite (123456 / 100)), decimal_part_of (Finite (123456 / 100))]"
    by (rule format_split)
  moreover have "integer_part_of (Finite (123456 / 100)) = ''1,234''"
    unfolding integer_part_of.simps int_digits_123456 group_1234 by simp
  moreover have "decimal_part_of (Finite (123456 / 100)) = ''56''"
    unfolding decimal_part_of.simps frac_digits_123456 by simp
  ultimately show ?thesis by simp
qed

lemma tile_texts_123456:
  "tile_texts (Finite (123456 / 100)) 1 pc =
     Inr [''$1'', '','', ''234'', ''.56'', format_plus_2f pc @ ''%'', up_arrow]"
proof -
  have sp: "split_on CHR ''.'' (format_comma_2f (Finite (123456 / 100)))
      = [(CHR ''1'' # []) @ CHR '','' # ''234'', ''56'']"
    using split_123456 by simp
  have nc: "CHR '','' \<notin> set (CHR ''1'' # [])" by simp
  have a: "arrow_of 1 = up_arrow" by (simp add: arrow_of_def)
  have r: "str_remove CHR '','' ''234'' = ''234''" by (simp add: str_remove_def)
  show ?thesis
    using tile_texts_comma [OF sp nc, of 1 pc] unfolding a r by simp
qed

lemma tile_texts_closed:
  assumes sp: "split_on CHR ''.'' (format_comma_2f price) = [ip, dp]"
    and ne: "ip \<noteq> []" and hc: "hd ip \<noteq> CHR '',''"
  shows "tile_texts price trend pc =
      Inr [''$'' @ [hd ip],
           tl (takeWhile (\<lambda>c. c \<noteq> CHR '','') ip) @ '','',
           str_remove CHR '','' (dropWhile (\<lambda>c. c \<noteq> CHR '','') ip),
           ''.'' @ dp, format_plus_2f pc @ ''%'', arrow_of trend]"
proof (cases "CHR '','' \<in> set ip")
  case False
  from ne obtain d0 t where ip: "ip = d0 # t" by (cases ip) auto
  have nc: "CHR '','' \<notin> set (d0 # t)" using False ip by simp
  have tw: "takeWhile (\<lambda>c. c \<noteq> CHR '','') (d0 # t) = d0 # t"
    using nc by (intro takeWhile_eq_all_conv [THEN iffD2]) auto
  have dw: "dropWhile (\<lambda>c. c \<noteq> CHR '','') (d0 # t) = []"
    using nc by (intro dropWhile_eq_Nil_conv [THEN iffD2]) auto
  have "tile_texts price trend pc =
      Inr [''$'' @ [d0], t @ '','', [], ''.'' @ dp, format_plus_2f pc @ ''%'', arrow_of trend]"
    using sp nc unfolding ip by (rule tile_texts_no_comma)
  then show ?thesis unfolding ip tw dw by (simp add: str_remove_def)
next
  case True
  then obtain ys zs where dec: "ip = ys @ CHR '','' # zs" and nys: "CHR '','' \<notin> set ys"
    by (auto dest: split_list_first)
  from hc dec obtain d0 p where ys: "ys = d0 # p" by (cases ys) auto
  have nc: "CHR '','' \<notin> set (d0 # p)" using nys ys by simp
  have ip: "ip = (d0 # p) @ CHR '','' # zs" using dec ys by simp
  have all: "\<forall>c\<in>set (d0 # p). c \<noteq> CHR '',''" using nc by auto
  have tw: "takeWhile (\<lambda>c. c \<noteq> CHR '','') ((d0 # p) @ CHR '','' # zs) = d0 # p"
    using all by (subst takeWhile_append2) auto
  have dw: "dropWhile (\<lambda>c. c \<noteq> CHR '','') ((d0 # p) @ CHR '','' # zs) = CHR '','' # zs"
    using all by (subst dropWhile_append2) auto
  have "tile_texts price trend pc =
      Inr [''$'' @ [d0], p @ '','', str_remove CHR '','' zs, ''.'' @ dp,
           format_plus_2f pc @ ''%'', arrow_of trend]"
    using sp nc unfolding ip by (rule tile_texts_comma)
  then show ?thesis unfolding ip tw dw str_remove_sep by simp
qed

lemma tile_texts_finite:
  assumes fin: "is_finite price"
  shows "tile_texts price trend pc =
      Inr [''$'' @ [hd (integer_part_of price)],
           tl (takeWhile (\<lambda>c. c \<noteq> CHR '','') (integer_part_of price)) @ '','',
           str_remove CHR '','' (dropWhile (\<lambda>c. c \<noteq> CHR '','') (integer_part_of price)),
           ''.'' @ decimal_part_of price, format_plus_2f pc @ ''%'', arrow_of trend]"
proof -
  have sp: "split_on CHR ''.'' (format_comma_2f price)
      = [integer_part_of price, decimal_part_of price]"
    using fin by (rule format_split)
  have ne: "integer_part_of price \<noteq> []" and hc: "hd (integer_part_of price) \<noteq> CHR '',''"
    using integer_part_hd [OF fin] by simp_all
  show ?thesis using sp ne hc by (rule tile_texts_closed)
qed

lemma tile_texts_nonfinite:
  "\<not> is_finite price \<Longrightarrow> tile_texts price trend pc = Inl ValueError"
  by (cases price) (simp_all add: tile_texts_def)

lemma hundredths_98765: "hundredths (98765 / 100) = 98765"
  by (simp add: hundredths_def round_half_even_def)

lemma int_digits_98765: "int_digits (98765 / 100) = ''987''"
  unfolding int_digits_def hundredths_98765
  by (simp add: digits_of.simps digit_char_def)

lemma frac_digits_98765: "frac_digits (98765 / 100) = ''65''"
  unfolding frac_digits_def hundredths_98765
  by (simp add: digit_char_def)

lemma group_987: "group_thousands ''987'' = ''987''"
  by (simp add: group_thousands.simps)

lemma split_98765:
  "split_on CHR ''.'' (format_comma_2f (Finite (98765 / 100))) = [''987'', ''65'']"
proof -
  have "is_finite (Finite (98765 / 100))" by simp
  then have "split_on CHR ''.'' (format_comma_2f (Finite (98765 / 100)))
      = [integer_part_of (Finite (98765 / 100)), decimal_part_of (Finite (98765 / 100))]"
    by (rule format_split)
  moreover have "integer_part_of (Finite (98765 / 100)) = ''987''"
    unfolding integer_part_of.simps int_digits_98765 group_987 by simp
  moreover have "decimal_part_of (Finite (98765 / 100)) = ''65''"
    unfolding decimal_part_of.simps frac_digits_98765 by simp
  ultimately show ?thesis by simp
qed

lemma format_plus_shape:
  assumes "is_finite p"
  shows "\<exists>s ds a b. format_plus_2f p = [s] @ ds @ ''.'' @ [a, b]
     \<and> (s = CHR ''+'' \<or> s = CHR ''-'') \<and> ds \<noteq> [] \<and> (\<forall>c\<in>set ds. is_digit c)
     \<and> is_digit a \<and> is_digit b
     \<and> (s = CHR ''-'') = (py_lt0 p \<or> p = NegZero)"
proof (cases p)
  case (Finite r)
  define s where "s = (if r < 0 then CHR ''-'' else CHR ''+'')"
  define a where "a = digit_char (hundredths r div 10 mod 10)"
  define b where "b = digit_char (hundredths r mod 10)"
  have f: "format_plus_2f p = [s] @ int_digits r @ ''.'' @ [a, b]"
    unfolding Finite s_def a_def b_def by (simp add: frac_digits_def)
  have sg: "s = CHR ''+'' \<or> s = CHR ''-''" unfolding s_def by simp
  have sm: "(s = CHR ''-'') = (py_lt0 p \<or> p = NegZero)" unfolding s_def Finite by simp
  have dg: "\<forall>c\<in>set (int_digits r). is_digit c" using int_digits_digits by blast
  have ab: "is_digit a" "is_digit b" unfolding a_def b_def by (rule is_digit_digit_char)+
  show ?thesis using f sg sm dg ab int_digits_nonempty [of r] by blast
next
  case NegZero
  have z: "is_digit CHR ''0''" by (simp add: is_digit_def)
  have f: "format_plus_2f p = [CHR ''-''] @ ''0'' @ ''.'' @ [CHR ''0'', CHR ''0'']"
    unfolding NegZero by simp
  have dg: "\<forall>c\<in>set ''0''. is_digit c" using z by simp
  have ne: "''0'' \<noteq> []" by simp
  have sm: "(CHR ''-'' = CHR ''-'') = (py_lt0 p \<or> p = NegZero)" unfolding NegZero by simp
  show ?thesis using f dg ne z sm by blast
qed (use assms in simp_all)

lemma vertical_offset_tile:
  "vertical_offset textbbox
     (create_tile_image textbbox text col fp fs kw KEY_HEIGHT yo) = yo"
  by (simp add: vertical_offset_def create_tile_image_def draw_text_def new_image_def
      centred_y_def Let_def split: prod.splits)

lemma create_price_images_six:
  assumes "tile_texts price trend pc = Inr [t1, t2, t3, t4, t5, t6]"
  shows "create_price_images textbbox price trend pc =
     Inr [create_tile_image textbbox t1 (trend_color trend) FONT_PATH 42 KEY_WIDTH KEY_HEIGHT 6,
          create_tile_image textbbox t2 (trend_color trend) FONT_PATH 42 KEY_WIDTH KEY_HEIGHT 6,
          create_tile_image textbbox t3 (trend_color trend) FONT_PATH 37 KEY_WIDTH KEY_HEIGHT 6,
          create_tile_image textbbox t4 (trend_color trend) FONT_PATH 39 KEY_WIDTH KEY_HEIGHT 6,
          create_tile_image textbbox t5 (trend_color trend) FONT_PATH 20 KEY_WIDTH KEY_HEIGHT 0,
          create_tile_image textbbox t6 (trend_color trend) FONT_PATH 48 KEY_WIDTH KEY_HEIGHT 6]"
  unfolding create_price_images_def assms
  by (simp add: enumerate_simps font_sizes_def y_offset_for_price_and_arrow_def)

lemma price_tile_offsets:
  assumes fp: "is_finite price"
  shows "\<exists>imgs. create_price_images textbbox price trend pc = Inr imgs
     \<and> map (vertical_offset textbbox) imgs = [6, 6, 6, 6, 0, 6]"
proof -
  from tile_texts_finite [OF fp, of trend pc] obtain t1 t2 t3 t4 t5 t6 where
    tt: "tile_texts price trend pc = Inr [t1, t2, t3, t4, t5, t6]"
    by simp
  show ?thesis
    unfolding create_price_images_six [OF tt]
    by (simp add: vertical_offset_tile)
qed

section \<open>Facts about the quote fetcher\<close>

lemma classify_trend_num:
  "classify_trend (JNum p) = Inr (if py_gt0 p then 1 else if py_lt0 p then - 1 else 0)"
  by (simp add: classify_trend_def)

lemma print_msg_ok: "stdout_encodes_glyphs w \<Longrightarrow> print_msg m w = Inr (printed m w)"
  by (simp add: print_msg_def)

lemma print_msg_fails: "\<not> stdout_encodes_glyphs w \<Longrightarrow> print_msg m w = Inl UnicodeEncodeError"
  by (simp add: print_msg_def)

lemma fetch_success:
  assumes st: "status_code \<noteq> 429"
    and b: "py_get data ''bitcoin'' (JObj []) = Inr btc"
    and p: "py_get btc ''usd'' JNull = Inr price"
    and c: "py_get btc ''usd_24h_change'' JNull = Inr change_24h"
    and pn: "price \<noteq> JNull" and cn: "change_24h \<noteq> JNull"
    and t: "classify_trend change_24h = Inr trend"
  shows "fetch_price_and_trend (Response status_code (Some data)) w
      = (Inr (price, trend, change_24h), w)"
  using st pn cn by (simp add: fetch_price_and_trend_def fetch_try_def b p c t)

lemma fetch_request_failed:
  "stdout_encodes_glyphs w \<Longrightarrow>
   fetch_price_and_trend RequestFailed w
     = (Inr unavailable, printed (FetchError RequestException) w)"
  by (simp add: fetch_price_and_trend_def fetch_try_def print_msg_def)

lemma fetch_rate_limited:
  "stdout_encodes_glyphs w \<Longrightarrow>
   fetch_price_and_trend (Response 429 body) w
     = (Inr unavailable, sleep 60 (printed RateLimitHit w))"
  by (simp add: fetch_price_and_trend_def fetch_try_def print_msg_def)

lemma fetch_bad_json:
  "stdout_encodes_glyphs w \<Longrightarrow> status_code \<noteq> 429 \<Longrightarrow>
   fetch_price_and_trend (Response status_code None) w
     = (Inr unavailable, printed (FetchError JSONDecodeError) w)"
  by (simp add: fetch_price_and_trend_def fetch_try_def print_msg_def)

lemma fetch_missing_field:
  assumes ok: "stdout_encodes_glyphs w"
    and st: "status_code \<noteq> 429"
    and b: "py_get data ''bitcoin'' (JObj []) = Inr btc"
    and p: "py_get btc ''usd'' JNull = Inr price"
    and c: "py_get btc ''usd_24h_change'' JNull = Inr change_24h"
    and n: "price = JNull \<or> change_24h = JNull"
  shows "fetch_price_and_trend (Response status_code (Some data)) w
      = (Inr unavailable, printed (UnexpectedResponse data) w)"
  using ok st n by (auto simp add: fetch_price_and_trend_def fetch_try_def print_msg_def b p c)

lemma fetch_try_keeps_stdout:
  "stdout_encodes_glyphs (snd (fetch_try outcome w)) = stdout_encodes_glyphs w"
  by (auto simp: fetch_try_def print_msg_def printed_def sleep_def
      split: http_outcome.splits option.splits sum.splits)

lemma fetch_exception:
  assumes "stdout_encodes_glyphs w" and "fetch_try outcome w = (Inl e, w')"
  shows "fetch_price_and_trend outcome w = (Inr unavailable, printed (FetchError e) w')"
proof -
  have "stdout_encodes_glyphs w'"
    using fetch_try_keeps_stdout [of outcome w] assms by simp
  then show ?thesis
    using assms(2) by (simp add: fetch_price_and_trend_def print_msg_def)
qed

text \<open>With a stdout that lacks the glyphs, what the body raises is caught, and the print
  of the \<^verbatim>\<open>except\<close> clause raises in its turn.\<close>

lemma fetch_try_raises_without_glyphs:
  "\<not> stdout_encodes_glyphs w \<Longrightarrow>
   fetch_try (Response 429 body) w = (Inl UnicodeEncodeError, w)"
  by (simp add: fetch_try_def print_msg_def)

lemma fetch_raises_without_glyphs:
  assumes "\<not> stdout_encodes_glyphs w" and "fetch_try outcome w = (Inl e, w')"
  shows "fetch_price_and_trend outcome w = (Inl UnicodeEncodeError, w')"
proof -
  have "\<not> stdout_encodes_glyphs w'"
    using fetch_try_keeps_stdout [of outcome w] assms by simp
  then show ?thesis
    using assms(2) by (simp add: fetch_price_and_trend_def print_msg_def)
qed

lemma fetch_try_world:
  "snd (fetch_try outcome w) = w
   \<or> snd (fetch_try outcome w) = sleep 60 (printed RateLimitHit w)
   \<or> (\<exists>data. snd (fetch_try outcome w) = printed (UnexpectedResponse data) w)"
  by (auto simp: fetch_try_def print_msg_def
      split: http_outcome.splits option.splits sum.splits)

lemma fetch_try_price:
  "fetch_try outcome w = (Inr (price, trend, change_24h), w') \<Longrightarrow>
   (price, trend, change_24h) = unavailable \<or> price \<noteq> JNull"
  by (auto simp: fetch_try_def print_msg_def
      split: http_outcome.splits option.splits sum.splits if_splits)

lemma fetch_result_shape:
  "(\<exists>e. fst (fetch_price_and_trend outcome w) = Inl e)
   \<or> fst (fetch_price_and_trend outcome w) = Inr unavailable
   \<or> (\<exists>price trend change_24h.
         fst (fetch_price_and_trend outcome w) = Inr (price, trend, change_24h)
         \<and> price \<noteq> JNull)"
proof (cases "fetch_try outcome w")
  case (Pair res w')
  show ?thesis
  proof (cases res)
    case (Inl e)
    then show ?thesis
      using Pair by (cases "print_msg (FetchError e) w'") (simp_all add: fetch_price_and_trend_def)
  next
    case (Inr q)
    obtain price trend change_24h where q: "q = (price, trend, change_24h)"
      by (cases q) auto
    from fetch_try_price [of outcome w price trend change_24h w'] Pair Inr q
    show ?thesis by (auto simp: fetch_price_and_trend_def)
  qed
qed

text \<open>What one call adds to the trace: prints and the back-off sleep, no key write.\<close>

lemma fetch_effects:
  "\<exists>evs. trace (snd (fetch_price_and_trend outcome w)) = trace w @ evs
     \<and> (\<forall>ev\<in>set evs. \<not> is_device_write ev)
     \<and> key_images (snd (fetch_price_and_trend outcome w)) = key_images w
     \<and> key_count (snd (fetch_price_and_trend outcome w)) = key_count w"
proof (cases "fetch_try outcome w")
  case (Pair res w')
  from fetch_try_world [of outcome w] Pair
  consider "w' = w" | "w' = sleep 60 (printed RateLimitHit w)"
    | data where "w' = printed (UnexpectedResponse data) w"
    by auto
  then have a: "\<exists>evs. trace w' = trace w @ evs \<and> (\<forall>ev\<in>set evs. \<not> is_device_write ev)
      \<and> key_images w' = key_images w \<and> key_count w' = key_count w"
  proof cases
    case 1
    then show ?thesis by simp
  next
    case 2
    then show ?thesis by (simp add: sleep_def printed_def)
  next
    case 3
    then show ?thesis by (simp add: printed_def)
  qed
  then obtain evs where e: "trace w' = trace w @ evs" "\<forall>ev\<in>set evs. \<not> is_device_write ev"
    "key_images w' = key_images w" "key_count w' = key_count w"
    by (elim exE conjE)
  show ?thesis
  proof (cases res)
    case (Inl err)
    show ?thesis
    proof (cases "stdout_encodes_glyphs w'")
      case True
      have f: "snd (fetch_price_and_trend outcome w) = printed (FetchError err) w'"
        using Pair Inl True by (simp add: fetch_price_and_trend_def print_msg_def)
      have "trace (printed (FetchError err) w') = trace w @ (evs @ [Print (FetchError err)])"
        using e(1) by (simp add: printed_def)
      moreover have "\<forall>ev\<in>set (evs @ [Print (FetchError err)]). \<not> is_device_write ev"
        using e(2) by simp
      moreover have "key_images (printed (FetchError err) w') = key_images w"
        "key_count (printed (FetchError err) w') = key_count w"
        using e(3,4) by (simp_all add: printed_def)
      ultimately show ?thesis unfolding f by blast
    next
      case False
      have f: "snd (fetch_price_and_trend outcome w) = w'"
        using Pair Inl False by (simp add: fetch_price_and_trend_def print_msg_def)
      show ?thesis unfolding f using e by blast
    qed
  next
    case (Inr q)
    have f: "snd (fetch_price_and_trend outcome w) = w'"
      using Pair Inr by (simp add: fetch_price_and_trend_def)
    show ?thesis unfolding f using e by blast
  qed
qed

lemma fetch_unavailable_after_429:
  assumes "fst (fetch_price_and_trend (Response 429 body) w) = Inr unavailable"
  shows "snd (fetch_price_and_trend (Response 429 body) w) = sleep 60 (printed RateLimitHit w)"
proof (cases "stdout_encodes_glyphs w")
  case True
  then show ?thesis by (simp add: fetch_rate_limited)
next
  case False
  from fetch_raises_without_glyphs [OF False fetch_try_raises_without_glyphs [OF False]]
  have "fst (fetch_price_and_trend (Response 429 body) w) = Inl UnicodeEncodeError" by simp
  with assms show ?thesis by simp
qed

text \<open>With a stdout that has the glyphs, every failure mode ends in the tuple
  "unavailable", and HTTP 429 adds one print and one sleep of 60 seconds.\<close>

lemma fetch_failures_with_encoding_stdout:
  assumes ok: "stdout_encodes_glyphs w"
  shows "fetch_price_and_trend RequestFailed w
      = (Inr unavailable, printed (FetchError RequestException) w)
   \<and> fetch_price_and_trend (Response 429 body) w
      = (Inr unavailable, sleep 60 (printed RateLimitHit w))
   \<and> trace (snd (fetch_price_and_trend (Response 429 body) w))
      = trace w @ [Print RateLimitHit, Sleep 60]
   \<and> (status_code \<noteq> 429 \<longrightarrow>
        fetch_price_and_trend (Response status_code None) w
          = (Inr unavailable, printed (FetchError JSONDecodeError) w))
   \<and> (status_code \<noteq> 429
        \<and> py_get data ''bitcoin'' (JObj []) = Inr btc
        \<and> py_get btc ''usd'' JNull = Inr price
        \<and> py_get btc ''usd_24h_change'' JNull = Inr change_24h
        \<and> (price = JNull \<or> change_24h = JNull) \<longrightarrow>
        fetch_price_and_trend (Response status_code (Some data)) w
          = (Inr unavailable, printed (UnexpectedResponse data) w))
   \<and> (fetch_try outcome w = (Inl e, w') \<longrightarrow>
        fetch_price_and_trend outcome w = (Inr unavailable, printed (FetchError e) w'))"
proof -
  have a: "trace (snd (fetch_price_and_trend (Response 429 body) w))
      = trace w @ [Print RateLimitHit, Sleep 60]"
    unfolding fetch_rate_limited [OF ok] by (simp add: sleep_def printed_def)
  have c4: "status_code \<noteq> 429 \<longrightarrow>
        fetch_price_and_trend (Response status_code None) w
          = (Inr unavailable, printed (FetchError JSONDecodeError) w)"
    using ok by (auto intro: fetch_bad_json)
  have c5: "status_code \<noteq> 429
        \<and> py_get data ''bitcoin'' (JObj []) = Inr btc
        \<and> py_get btc ''usd'' JNull = Inr price
        \<and> py_get btc ''usd_24h_change'' JNull = Inr change_24h
        \<and> (price = JNull \<or> change_24h = JNull) \<longrightarrow>
        fetch_price_and_trend (Response status_code (Some data)) w
          = (Inr unavailable, printed (UnexpectedResponse data) w)"
  proof (rule impI, elim conjE)
    assume "status_code \<noteq> 429" "py_get data ''bitcoin'' (JObj []) = Inr btc"
      "py_get btc ''usd'' JNull = Inr price"
      "py_get btc ''usd_24h_change'' JNull = Inr change_24h"
      "price = JNull \<or> change_24h = JNull"
    with ok show "fetch_price_and_trend (Response status_code (Some data)) w
          = (Inr unavailable, printed (UnexpectedResponse data) w)"
      by (rule fetch_missing_field)
  qed
  have c6: "fetch_try outcome w = (Inl e, w') \<longrightarrow>
        fetch_price_and_trend outcome w = (Inr unavailable, printed (FetchError e) w')"
    using ok by (auto intro: fetch_exception)
  from fetch_request_failed [OF ok] fetch_rate_limited [OF ok, of body] a c4 c5 c6
  show ?thesis by (intro conjI)
qed

section \<open>Facts about the device sink\<close>

lemma fill_fold_images:
  "key_images (fold (\<lambda>key d. if key \<notin> set used then set_key_image key b d else d) ks d0) k
     = (if k \<in> set ks \<and> k \<notin> set used then Some b else key_images d0 k)"
  by (induction ks arbitrary: d0) (auto simp: set_key_image_def)

lemma fill_fold_count:
  "key_count (fold (\<lambda>key d. if key \<notin> set used then set_key_image key b d else d) ks d0)
     = key_count d0"
  by (induction ks arbitrary: d0) (auto simp: set_key_image_def)

lemma fill_fold_trace:
  "trace (fold (\<lambda>key d. if key \<notin> set used then set_key_image key b d else d) ks d0)
     = trace d0 @ map (\<lambda>key. SetKeyImage key b) (filter (\<lambda>key. key \<notin> set used) ks)"
  by (induction ks arbitrary: d0) (auto simp: set_key_image_def)

lemma push_loop_total:
  "n + length imgs \<le> length key_map \<Longrightarrow> \<exists>d. push_loop to_native (enumerate n imgs) w = Inr d"
  by (induction imgs arbitrary: n w) (auto simp: enumerate_simps)

lemma push_six_total:
  "length tile_images \<le> 6 \<Longrightarrow>
   \<exists>d. push_to_streamdeck_tile_images to_native deck tile_images = Inr d"
  unfolding push_to_streamdeck_tile_images_def
  using push_loop_total [of 0 tile_images to_native deck] by (simp add: key_map_def)

section \<open>The price tiles\<close>

text \<open>
  C1. For every positive price, create_price_images returns six tiles, and the texts of
  tiles 1 to 4, concatenated, hold exactly the digits of the formatted price string
  \<^verbatim>\<open>f"{price:,.2f}"\<close>, in the same order. Dropping the dollar sign, the separators and
  the point from the concatenation gives the formatted price without its separators
  and point. A positive price is a number \<open>Finite r\<close> with \<open>0 < r\<close>.
\<close>

theorem tiles_reproduce_price_digits:
  assumes "0 < r"
  shows "\<exists>imgs. create_price_images textbbox (Finite r) trend percent_change = Inr imgs
     \<and> length imgs = 6
     \<and> filter is_digit (concat (map image_text (take 4 imgs)))
         = filter is_digit (format_comma_2f (Finite r))
     \<and> filter (\<lambda>c. c \<notin> {CHR ''$'', CHR '','', CHR ''.''}) (concat (map image_text (take 4 imgs)))
         = filter (\<lambda>c. c \<notin> {CHR '','', CHR ''.''}) (format_comma_2f (Finite r))"
proof -
  have "is_finite (Finite r)" by simp
  then show ?thesis by (rule price_tiles_digits)
qed

theorem tiles_reproduce_price_digits_witness:
  "(0::rat) < 123456 / 100 \<and>
   (\<exists>imgs. create_price_images (\<lambda>fnt text. (0, 0, 0, 0)) (Finite (123456 / 100)) 1 (Finite 0)
        = Inr imgs
     \<and> length imgs = 6
     \<and> filter is_digit (concat (map image_text (take 4 imgs)))
         = filter is_digit (format_comma_2f (Finite (123456 / 100)))
     \<and> filter (\<lambda>c. c \<notin> {CHR ''$'', CHR '','', CHR ''.''}) (concat (map image_text (take 4 imgs)))
         = filter (\<lambda>c. c \<notin> {CHR '','', CHR ''.''}) (format_comma_2f (Finite (123456 / 100))))"
proof -
  have h: "(0::rat) < 123456 / 100" by simp
  from h tiles_reproduce_price_digits [OF h] show ?thesis by (rule conjI)
qed

text \<open>
  C2 (as amended). For the price 1234.56 with trend Up, the first separator comes right
  after the first digit, so tile 2 is the separator alone and tile 3 holds the three
  digits that follow: the texts are "$1", ",", "234", ".56", the signed percent string
  and the up arrow.
\<close>

theorem tiles_for_1234_56_up:
  "\<exists>imgs. create_price_images textbbox (Finite (123456 / 100)) 1 percent_change = Inr imgs
     \<and> map image_text imgs =
         [''$1'', '','', ''234'', ''.56'', format_plus_2f percent_change @ ''%'', up_arrow]"
  using tile_texts_123456 by (rule create_price_images_texts)

text \<open>The texts "$1", "2,", "34", ".56" of the claim as stated are not what the code
  produces for 1234.56.\<close>

theorem tiles_for_1234_56_up_counterexample:
  "take 4 (rendered_texts (create_price_images sample_textbbox (Finite (123456 / 100)) 1
      (Finite (5 / 2)))) \<noteq> [''$1'', ''2,'', ''34'', ''.56'']"
proof -
  from create_price_images_texts [OF tile_texts_123456, of sample_textbbox "Finite (5 / 2)"]
  obtain imgs where
    ci: "create_price_images sample_textbbox (Finite (123456 / 100)) 1 (Finite (5 / 2)) = Inr imgs"
    and mt: "map image_text imgs =
      [''$1'', '','', ''234'', ''.56'', format_plus_2f (Finite (5 / 2)) @ ''%'', up_arrow]"
    by (elim exE conjE)
  have "take 4 (rendered_texts (create_price_images sample_textbbox (Finite (123456 / 100)) 1
      (Finite (5 / 2)))) = [''$1'', '','', ''234'', ''.56'']"
    unfolding ci rendered_texts_def sum.case mt by simp
  then show ?thesis by simp
qed

text \<open>
  C8. For every price (a number that is not negative) whose formatted integer part
  holds no thousands separator, tile 1 is the dollar sign and the first integer digit,
  tile 2 is the remaining integer digits and a separator, and tile 3 is empty.
\<close>

theorem tiles_without_separator:
  assumes nn: "0 \<le> r"
    and sp: "split_on CHR ''.'' (format_comma_2f (Finite r)) = [integer_part, decimal_part]"
    and nc: "CHR '','' \<notin> set integer_part"
  shows "\<exists>imgs. create_price_images textbbox (Finite r) trend percent_change = Inr imgs
     \<and> take 3 (map image_text imgs) = [''$'' @ [hd integer_part], tl integer_part @ '','', []]
     \<and> integer_part = int_digits r \<and> is_digit (hd integer_part)"
proof -
  have fin: "is_finite (Finite r)" by simp
  have "[integer_part, decimal_part]
      = [integer_part_of (Finite r), decimal_part_of (Finite r)]"
    using format_split [OF fin] sp by simp
  then have ip: "integer_part_of (Finite r) = integer_part" by simp
  have g: "integer_part = group_thousands (int_digits r)"
    using ip nn by simp
  have "CHR '','' \<notin> set (int_digits r)"
    using int_digits_digits [of "CHR '',''" r] not_digit_chars(2) by blast
  then have "str_remove CHR '','' (group_thousands (int_digits r)) = int_digits r"
    by (rule group_thousands_remove)
  then have idg: "integer_part = int_digits r"
    using str_remove_id [OF nc] g by simp
  have "hd (int_digits r) \<in> set (int_digits r)"
    using int_digits_nonempty by simp
  then have hdg: "is_digit (hd integer_part)"
    unfolding idg by (rule int_digits_digits)
  have tw: "takeWhile (\<lambda>c. c \<noteq> CHR '','') integer_part = integer_part"
    using nc by (intro takeWhile_eq_all_conv [THEN iffD2]) auto
  have dw: "dropWhile (\<lambda>c. c \<noteq> CHR '','') integer_part = []"
    using nc by (intro dropWhile_eq_Nil_conv [THEN iffD2]) auto
  define texts where "texts = [''$'' @ [hd integer_part], tl integer_part @ '','', [],
      ''.'' @ decimal_part_of (Finite r), format_plus_2f percent_change @ ''%'', arrow_of trend]"
  have tt: "tile_texts (Finite r) trend percent_change = Inr texts"
    using tile_texts_finite [OF fin, of trend percent_change]
    unfolding ip tw dw texts_def by (simp add: str_remove_def)
  from create_price_images_texts [OF tt, of textbbox] obtain imgs where
    ci: "create_price_images textbbox (Finite r) trend percent_change = Inr imgs"
    and mt: "map image_text imgs = texts"
    by (elim exE conjE)
  have "take 3 (map image_text imgs) = [''$'' @ [hd integer_part], tl integer_part @ '','', []]"
    unfolding mt texts_def by simp
  with ci idg hdg show ?thesis by blast
qed

theorem tiles_without_separator_witness:
  "(0::rat) \<le> 98765 / 100
   \<and> split_on CHR ''.'' (format_comma_2f (Finite (98765 / 100))) = [''987'', ''65'']
   \<and> CHR '','' \<notin> set ''987''
   \<and> (\<exists>imgs. create_price_images sample_textbbox (Finite (98765 / 100)) 1 (Finite (5 / 2))
         = Inr imgs
       \<and> take 3 (map image_text imgs) = [''$'' @ [hd ''987''], tl ''987'' @ '','', []]
       \<and> ''987'' = int_digits (98765 / 100) \<and> is_digit (hd ''987''))"
proof -
  have h1: "(0::rat) \<le> 98765 / 100" by simp
  have h3: "CHR '','' \<notin> set ''987''" by simp
  from h1 split_98765 h3 tiles_without_separator [OF h1 split_98765 h3]
  show ?thesis by (intro conjI)
qed

text \<open>
  C7. For every percent change that is a finite number, zero included, tile 5 starts
  with a plus or a minus sign, has a point followed by exactly two digits, and ends with
  the percent sign. The sign is a minus exactly for a negative change (and for the
  float negative zero).
\<close>

theorem percent_tile_signed_two_decimals:
  assumes fp: "is_finite price" and fc: "is_finite percent_change"
  shows "\<exists>imgs s ds a b.
       create_price_images textbbox price trend percent_change = Inr imgs
     \<and> image_text (imgs ! 4) = [s] @ ds @ ''.'' @ [a, b] @ ''%''
     \<and> (s = CHR ''+'' \<or> s = CHR ''-'') \<and> ds \<noteq> [] \<and> (\<forall>c\<in>set ds. is_digit c)
     \<and> is_digit a \<and> is_digit b
     \<and> (s = CHR ''-'') = (py_lt0 percent_change \<or> percent_change = NegZero)"
proof -
  define t1 where "t1 = ''$'' @ [hd (integer_part_of price)]"
  define t2 where "t2 = tl (takeWhile (\<lambda>c. c \<noteq> CHR '','') (integer_part_of price)) @ '',''"
  define t3 where
    "t3 = str_remove CHR '','' (dropWhile (\<lambda>c. c \<noteq> CHR '','') (integer_part_of price))"
  define t4 where "t4 = ''.'' @ decimal_part_of price"
  define t5 where "t5 = format_plus_2f percent_change @ ''%''"
  have tt: "tile_texts price trend percent_change = Inr [t1, t2, t3, t4, t5, arrow_of trend]"
    unfolding t1_def t2_def t3_def t4_def t5_def using fp by (rule tile_texts_finite)
  from create_price_images_texts [OF tt, of textbbox] obtain imgs where
    ci: "create_price_images textbbox price trend percent_change = Inr imgs"
    and mt: "map image_text imgs = [t1, t2, t3, t4, t5, arrow_of trend]"
    by (elim exE conjE)
  have "length (map image_text imgs) = 6" unfolding mt by simp
  then have len: "4 < length imgs" by simp
  have "image_text (imgs ! 4) = map image_text imgs ! 4"
    using len by (rule nth_map [symmetric])
  then have i5: "image_text (imgs ! 4) = t5" unfolding mt by simp
  from format_plus_shape [OF fc] obtain s ds a b where
    f: "format_plus_2f percent_change = [s] @ ds @ ''.'' @ [a, b]"
    and r: "(s = CHR ''+'' \<or> s = CHR ''-'')" "ds \<noteq> []" "(\<forall>c\<in>set ds. is_digit c)"
       "is_digit a" "is_digit b"
       "(s = CHR ''-'') = (py_lt0 percent_change \<or> percent_change = NegZero)"
    by (elim exE conjE)
  have "image_text (imgs ! 4) = [s] @ ds @ ''.'' @ [a, b] @ ''%''"
    unfolding i5 t5_def f by simp
  with ci r show ?thesis by blast
qed

theorem percent_tile_signed_two_decimals_witness:
  "is_finite (Finite (98765 / 100)) \<and> is_finite (Finite 0)
   \<and> (\<exists>imgs s ds a b.
       create_price_images sample_textbbox (Finite (98765 / 100)) 0 (Finite 0) = Inr imgs
     \<and> image_text (imgs ! 4) = [s] @ ds @ ''.'' @ [a, b] @ ''%''
     \<and> (s = CHR ''+'' \<or> s = CHR ''-'') \<and> ds \<noteq> [] \<and> (\<forall>c\<in>set ds. is_digit c)
     \<and> is_digit a \<and> is_digit b
     \<and> (s = CHR ''-'') = (py_lt0 (Finite 0) \<or> Finite 0 = NegZero))"
proof -
  have h1: "is_finite (Finite (98765 / 100))" by simp
  have h2: "is_finite (Finite 0)" by simp
  from h1 h2 percent_tile_signed_two_decimals [OF h1 h2]
  show ?thesis by (intro conjI)
qed

text \<open>
  C10. For every valid price (a finite number), tile 2 holds exactly one separator, as
  its last character: it is the part of the formatted integer part after the first
  character, up to the first separator, followed by a separator (the one found there or,
  when there is none, one that is appended). Tiles 1, 3 and 4 hold no separator.
\<close>

theorem second_tile_ends_with_only_separator:
  assumes fp: "is_finite price"
  shows "\<exists>imgs t1 t2 t3 t4 t5 t6 integer_part decimal_part.
       create_price_images textbbox price trend percent_change = Inr imgs
     \<and> map image_text imgs = [t1, t2, t3, t4, t5, t6]
     \<and> split_on CHR ''.'' (format_comma_2f price) = [integer_part, decimal_part]
     \<and> t2 = tl (takeWhile (\<lambda>c. c \<noteq> CHR '','') integer_part) @ '',''
     \<and> count_list t2 CHR '','' = 1 \<and> last t2 = CHR '',''
     \<and> CHR '','' \<notin> set t1 \<and> CHR '','' \<notin> set t3 \<and> CHR '','' \<notin> set t4"
proof -
  define ip where "ip = integer_part_of price"
  define dp where "dp = decimal_part_of price"
  define t1 where "t1 = ''$'' @ [hd ip]"
  define pre where "pre = tl (takeWhile (\<lambda>c. c \<noteq> CHR '','') ip)"
  define t2 where "t2 = pre @ '',''"
  define t3 where "t3 = str_remove CHR '','' (dropWhile (\<lambda>c. c \<noteq> CHR '','') ip)"
  define t4 where "t4 = ''.'' @ dp"
  define t5 where "t5 = format_plus_2f percent_change @ ''%''"
  have sp: "split_on CHR ''.'' (format_comma_2f price) = [ip, dp]"
    unfolding ip_def dp_def using fp by (rule format_split)
  have tt: "tile_texts price trend percent_change = Inr [t1, t2, t3, t4, t5, arrow_of trend]"
    unfolding t1_def t2_def pre_def t3_def t4_def t5_def ip_def dp_def
    using fp by (rule tile_texts_finite)
  from create_price_images_texts [OF tt, of textbbox] obtain imgs where
    ci: "create_price_images textbbox price trend percent_change = Inr imgs"
    and mt: "map image_text imgs = [t1, t2, t3, t4, t5, arrow_of trend]"
    by (elim exE conjE)
  have "set pre \<subseteq> set (takeWhile (\<lambda>c. c \<noteq> CHR '','') ip)"
    unfolding pre_def by (cases "takeWhile (\<lambda>c. c \<noteq> CHR '','') ip") auto
  then have np: "CHR '','' \<notin> set pre"
    using set_takeWhileD [of "CHR '',''" "\<lambda>c. c \<noteq> CHR '',''" ip] by blast
  have c2: "count_list t2 CHR '','' = 1" unfolding t2_def using np by simp
  have l2: "last t2 = CHR '',''" unfolding t2_def by simp
  have e2: "t2 = tl (takeWhile (\<lambda>c. c \<noteq> CHR '','') ip) @ '',''"
    unfolding t2_def pre_def ..
  have n1: "CHR '','' \<notin> set t1"
    unfolding t1_def ip_def using integer_part_hd [OF fp] by auto
  have n3: "CHR '','' \<notin> set t3" unfolding t3_def str_remove_def by simp
  have n4: "CHR '','' \<notin> set t4"
    unfolding t4_def dp_def using decimal_part_chars [OF fp] not_digit_chars(2) by auto
  have "create_price_images textbbox price trend percent_change = Inr imgs
     \<and> map image_text imgs = [t1, t2, t3, t4, t5, arrow_of trend]
     \<and> split_on CHR ''.'' (format_comma_2f price) = [ip, dp]
     \<and> t2 = tl (takeWhile (\<lambda>c. c \<noteq> CHR '','') ip) @ '',''
     \<and> count_list t2 CHR '','' = 1 \<and> last t2 = CHR '',''
     \<and> CHR '','' \<notin> set t1 \<and> CHR '','' \<notin> set t3 \<and> CHR '','' \<notin> set t4"
    using ci mt sp e2 c2 l2 n1 n3 n4 by (intro conjI)
  then show ?thesis by - ((rule exI)+, assumption)
qed

theorem second_tile_ends_with_only_separator_witness:
  "is_finite (Finite (123456 / 100))
   \<and> (\<exists>imgs t1 t2 t3 t4 t5 t6 integer_part decimal_part.
       create_price_images sample_textbbox (Finite (123456 / 100)) 1 (Finite (5 / 2)) = Inr imgs
     \<and> map image_text imgs = [t1, t2, t3, t4, t5, t6]
     \<and> split_on CHR ''.'' (format_comma_2f (Finite (123456 / 100))) = [integer_part, decimal_part]
     \<and> t2 = tl (takeWhile (\<lambda>c. c \<noteq> CHR '','') integer_part) @ '',''
     \<and> count_list t2 CHR '','' = 1 \<and> last t2 = CHR '',''
     \<and> CHR '','' \<notin> set t1 \<and> CHR '','' \<notin> set t3 \<and> CHR '','' \<notin> set t4)"
proof -
  have h: "is_finite (Finite (123456 / 100))" by simp
  from h second_tile_ends_with_only_separator [OF h]
  show ?thesis by (rule conjI)
qed

text \<open>
  C9 (as amended). The vertical offset of 6 is applied to the four price tiles (tiles 1 to
  3 and the decimal tile 4) and to the arrow tile 6. Only the percent tile 5 is drawn
  at the centred position.
\<close>

theorem offset_on_price_and_arrow_tiles:
  assumes "is_finite price"
  shows "\<exists>imgs. create_price_images textbbox price trend percent_change = Inr imgs
     \<and> map (vertical_offset textbbox) imgs = [6, 6, 6, 6, 0, 6]"
  using assms by (rule price_tile_offsets)

theorem offset_on_price_and_arrow_tiles_witness:
  "is_finite (Finite (123456 / 100))
   \<and> (\<exists>imgs. create_price_images sample_textbbox (Finite (123456 / 100)) 1 (Finite (5 / 2))
          = Inr imgs
        \<and> map (vertical_offset sample_textbbox) imgs = [6, 6, 6, 6, 0, 6])"
proof -
  have h: "is_finite (Finite (123456 / 100))" by simp
  from h offset_on_price_and_arrow_tiles [OF h] show ?thesis by (rule conjI)
qed

text \<open>The decimal tile (tile 4, index 3) is not drawn without an offset.\<close>

theorem offset_on_price_and_arrow_tiles_counterexample:
  "tile_offsets sample_textbbox
     (create_price_images sample_textbbox (Finite (123456 / 100)) 1 (Finite (5 / 2))) ! 3 \<noteq> 0"
proof -
  have h: "is_finite (Finite (123456 / 100))" by simp
  from price_tile_offsets [OF h, of sample_textbbox 1 "Finite (5 / 2)"] obtain imgs where
    ci: "create_price_images sample_textbbox (Finite (123456 / 100)) 1 (Finite (5 / 2)) = Inr imgs"
    and mo: "map (vertical_offset sample_textbbox) imgs = [6, 6, 6, 6, 0, 6]"
    by (elim exE conjE)
  show ?thesis unfolding ci tile_offsets_def sum.case mo by simp
qed

section \<open>The quote fetcher\<close>

lemma py_sign_exclusive:
  "\<not> (py_gt0 p \<and> py_lt0 p)" "py_eq0 p \<Longrightarrow> \<not> py_gt0 p \<and> \<not> py_lt0 p"
  by (cases p; simp)+

text \<open>
  C3. When the response carries a price and a numeric 24h change, the trend that
  fetch_price_and_trend returns depends on the change alone and is one of 1 (Up),
  -1 (Down) and 0 (Flat): 1 exactly when the change is above zero, -1 exactly when it
  is below zero, and 0 when it equals zero.
\<close>

theorem trend_is_sign_of_change:
  assumes st: "status_code \<noteq> 429"
    and b: "py_get data ''bitcoin'' (JObj []) = Inr btc"
    and p: "py_get btc ''usd'' JNull = Inr price"
    and pn: "price \<noteq> JNull"
    and c: "py_get btc ''usd_24h_change'' JNull = Inr (JNum change)"
  shows "\<exists>trend. fetch_price_and_trend (Response status_code (Some data)) w
         = (Inr (price, trend, JNum change), w)
     \<and> classify_trend (JNum change) = Inr trend
     \<and> (trend = 1 \<or> trend = - 1 \<or> trend = 0)
     \<and> (trend = 1) = py_gt0 change
     \<and> (trend = - 1) = py_lt0 change
     \<and> (py_eq0 change \<longrightarrow> trend = 0)"
proof -
  define trend :: int where
    "trend = (if py_gt0 change then 1 else if py_lt0 change then - 1 else 0)"
  have t: "classify_trend (JNum change) = Inr trend"
    unfolding trend_def by (rule classify_trend_num)
  have cn: "JNum change \<noteq> JNull" by simp
  have f: "fetch_price_and_trend (Response status_code (Some data)) w
      = (Inr (price, trend, JNum change), w)"
    using st b p c pn cn t by (rule fetch_success)
  have r1: "trend = 1 \<or> trend = - 1 \<or> trend = 0" unfolding trend_def by simp
  have r2: "(trend = 1) = py_gt0 change" unfolding trend_def by simp
  have r3: "(trend = - 1) = py_lt0 change"
    unfolding trend_def using py_sign_exclusive(1) [of change] by auto
  have r4: "py_eq0 change \<longrightarrow> trend = 0"
    unfolding trend_def using py_sign_exclusive(2) [of change] by auto
  from f t r1 r2 r3 r4 show ?thesis by blast
qed

theorem trend_is_sign_of_change_witness:
  "(200::nat) \<noteq> 429
   \<and> py_get (JObj [(''bitcoin'', JObj [(''usd'', JNum (Finite 65000)),
                                       (''usd_24h_change'', JNum (Finite (- 2)))])])
        ''bitcoin'' (JObj [])
      = Inr (JObj [(''usd'', JNum (Finite 65000)), (''usd_24h_change'', JNum (Finite (- 2)))])
   \<and> py_get (JObj [(''usd'', JNum (Finite 65000)), (''usd_24h_change'', JNum (Finite (- 2)))])
        ''usd'' JNull = Inr (JNum (Finite 65000))
   \<and> JNum (Finite 65000) \<noteq> JNull
   \<and> py_get (JObj [(''usd'', JNum (Finite 65000)), (''usd_24h_change'', JNum (Finite (- 2)))])
        ''usd_24h_change'' JNull = Inr (JNum (Finite (- 2)))
   \<and> (\<exists>trend. fetch_price_and_trend
          (Response 200 (Some (JObj [(''bitcoin'', JObj [(''usd'', JNum (Finite 65000)),
                                       (''usd_24h_change'', JNum (Finite (- 2)))])])))
          sample_deck
         = (Inr (JNum (Finite 65000), trend, JNum (Finite (- 2))), sample_deck)
     \<and> classify_trend (JNum (Finite (- 2))) = Inr trend
     \<and> (trend = 1 \<or> trend = - 1 \<or> trend = 0)
     \<and> (trend = 1) = py_gt0 (Finite (- 2))
     \<and> (trend = - 1) = py_lt0 (Finite (- 2))
     \<and> (py_eq0 (Finite (- 2)) \<longrightarrow> trend = 0))"
proof -
  have h1: "(200::nat) \<noteq> 429" by simp
  have h2: "py_get (JObj [(''bitcoin'', JObj [(''usd'', JNum (Finite 65000)),
                                       (''usd_24h_change'', JNum (Finite (- 2)))])])
        ''bitcoin'' (JObj [])
      = Inr (JObj [(''usd'', JNum (Finite 65000)), (''usd_24h_change'', JNum (Finite (- 2)))])"
    by simp
  have h3: "py_get (JObj [(''usd'', JNum (Finite 65000)), (''usd_24h_change'', JNum (Finite (- 2)))])
        ''usd'' JNull = Inr (JNum (Finite 65000))"
    by simp
  have h4: "JNum (Finite 65000) \<noteq> JNull" by simp
  have h5: "py_get (JObj [(''usd'', JNum (Finite 65000)), (''usd_24h_change'', JNum (Finite (- 2)))])
        ''usd_24h_change'' JNull = Inr (JNum (Finite (- 2)))"
    by simp
  from h1 h2 h3 h4 h5 trend_is_sign_of_change [OF h1 h2 h3 h4 h5, of sample_deck]
  show ?thesis by (intro conjI)
qed

text \<open>
  C4. fetch_price_and_trend is meant never to raise, and its \<^verbatim>\<open>except Exception\<close> clause
  catches whatever the body raises. The clause prints before it returns, and that
  print is not guarded. With a stdout in ASCII, on HTTP 429 the print of line 36 raises
  UnicodeEncodeError before the sleep of 60 seconds, the clause catches it, and its own
  print on line 53 raises UnicodeEncodeError, which reaches the caller: nothing is
  returned and nothing was slept. The same happens when the request itself raises.
\<close>

theorem fetch_raises_on_ascii_stdout:
  "fetch_price_and_trend (Response 429 None) ascii_stdout_deck
      = (Inl UnicodeEncodeError, ascii_stdout_deck)
   \<and> Sleep 60 \<notin> set (trace (snd (fetch_price_and_trend (Response 429 None) ascii_stdout_deck)))
   \<and> fetch_price_and_trend RequestFailed ascii_stdout_deck
      = (Inl UnicodeEncodeError, ascii_stdout_deck)"
proof -
  have n: "\<not> stdout_encodes_glyphs ascii_stdout_deck"
    by (simp add: ascii_stdout_deck_def)
  have a: "fetch_price_and_trend (Response 429 None) ascii_stdout_deck
      = (Inl UnicodeEncodeError, ascii_stdout_deck)"
    using n fetch_try_raises_without_glyphs [OF n] by (rule fetch_raises_without_glyphs)
  have b: "Sleep 60 \<notin> set (trace (snd (fetch_price_and_trend (Response 429 None) ascii_stdout_deck)))"
    unfolding a by (simp add: ascii_stdout_deck_def)
  have "fetch_try RequestFailed ascii_stdout_deck = (Inl RequestException, ascii_stdout_deck)"
    by (simp add: fetch_try_def)
  with n have c: "fetch_price_and_trend RequestFailed ascii_stdout_deck
      = (Inl UnicodeEncodeError, ascii_stdout_deck)"
    by (rule fetch_raises_without_glyphs)
  from a b c show ?thesis by (intro conjI)
qed

section \<open>The device sink and the driver loop\<close>

text \<open>
  C6. After a successful push of the price tiles, fill_unused_keys with the used-set of
  main (the six tile slots and the countdown slot) writes the solid black bitmap to
  every key of the device outside the used-set, once each and to no other key, and
  leaves what every key of the used-set shows as it was. This holds for every key count.
\<close>

theorem blanking_covers_unused_keys:
  assumes "push_to_streamdeck_tile_images to_native deck tile_images = Inr d1"
  shows "key_images (fill_unused_keys to_native d1 used_keys_main) k
       = (if k < key_count d1 \<and> k \<notin> set used_keys_main
          then Some (to_native blank_img) else key_images d1 k)
     \<and> trace (fill_unused_keys to_native d1 used_keys_main)
       = trace d1 @ map (\<lambda>key. SetKeyImage key (to_native blank_img))
                      (filter (\<lambda>key. key \<notin> set used_keys_main) [0..<key_count d1])
     \<and> key_count (fill_unused_keys to_native d1 used_keys_main) = key_count d1
     \<and> blank_img = \<lparr>img_width = 72, img_height = 72, drawn = []\<rparr>
     \<and> set used_keys_main = set key_map \<union> {10}"
proof -
  have a: "key_images (fill_unused_keys to_native d1 used_keys_main) k
       = (if k < key_count d1 \<and> k \<notin> set used_keys_main
          then Some (to_native blank_img) else key_images d1 k)"
    unfolding fill_unused_keys_def Let_def fill_fold_images by simp
  have b: "trace (fill_unused_keys to_native d1 used_keys_main)
       = trace d1 @ map (\<lambda>key. SetKeyImage key (to_native blank_img))
                      (filter (\<lambda>key. key \<notin> set used_keys_main) [0..<key_count d1])"
    unfolding fill_unused_keys_def Let_def by (rule fill_fold_trace)
  have c: "key_count (fill_unused_keys to_native d1 used_keys_main) = key_count d1"
    unfolding fill_unused_keys_def Let_def by (rule fill_fold_count)
  have d: "blank_img = \<lparr>img_width = 72, img_height = 72, drawn = []\<rparr>"
    by (simp add: blank_img_def new_image_def KEY_WIDTH_def KEY_HEIGHT_def)
  have e: "set used_keys_main = set key_map \<union> {10}"
    by (auto simp: used_keys_main_def key_map_def)
  from a b c d e show ?thesis by (intro conjI)
qed

theorem blanking_covers_unused_keys_witness:
  "\<exists>d1. push_to_streamdeck_tile_images id sample_deck (replicate 6 blank_img) = Inr d1
     \<and> key_images (fill_unused_keys id d1 used_keys_main) 0
       = (if 0 < key_count d1 \<and> 0 \<notin> set used_keys_main
          then Some (id blank_img) else key_images d1 0)
     \<and> trace (fill_unused_keys id d1 used_keys_main)
       = trace d1 @ map (\<lambda>key. SetKeyImage key (id blank_img))
                      (filter (\<lambda>key. key \<notin> set used_keys_main) [0..<key_count d1])
     \<and> key_count (fill_unused_keys id d1 used_keys_main) = key_count d1
     \<and> blank_img = \<lparr>img_width = 72, img_height = 72, drawn = []\<rparr>
     \<and> set used_keys_main = set key_map \<union> {10}"
proof -
  have "length (replicate 6 blank_img) \<le> 6" by simp
  then obtain d1 where
    h: "push_to_streamdeck_tile_images id sample_deck (replicate 6 blank_img) = Inr d1"
    using push_six_total by blast
  from h blanking_covers_unused_keys [OF h, of 0] have
    "push_to_streamdeck_tile_images id sample_deck (replicate 6 blank_img) = Inr d1
     \<and> key_images (fill_unused_keys id d1 used_keys_main) 0
       = (if 0 < key_count d1 \<and> 0 \<notin> set used_keys_main
          then Some (id blank_img) else key_images d1 0)
     \<and> trace (fill_unused_keys id d1 used_keys_main)
       = trace d1 @ map (\<lambda>key. SetKeyImage key (id blank_img))
                      (filter (\<lambda>key. key \<notin> set used_keys_main) [0..<key_count d1])
     \<and> key_count (fill_unused_keys id d1 used_keys_main) = key_count d1
     \<and> blank_img = \<lparr>img_width = 72, img_height = 72, drawn = []\<rparr>
     \<and> set used_keys_main = set key_map \<union> {10}"
    by (rule conjI)
  then show ?thesis by (rule exI)
qed

text \<open>
  C5. In a pass of the driver loop where the fetch returns "unavailable", main renders
  nothing and writes no key: it sleeps the refresh interval once after what the fetch
  itself printed and slept, and the loop goes on with the next pass from a deck that
  shows what it showed before. After HTTP 429 the trace of the pass is the print, the
  60-second sleep and the sleep of the refresh interval.
\<close>

theorem unavailable_pass_leaves_deck_untouched:
  assumes "fst (fetch_price_and_trend outcome deck) = Inr unavailable"
  shows "\<exists>d' evs.
       main_iteration textbbox to_native outcome deck = Inr d'
     \<and> d' = sleep REFRESH_INTERVAL (snd (fetch_price_and_trend outcome deck))
     \<and> trace d' = trace deck @ evs @ [Sleep REFRESH_INTERVAL]
     \<and> (\<forall>ev\<in>set evs. \<not> is_device_write ev)
     \<and> key_images d' = key_images deck \<and> key_count d' = key_count deck
     \<and> main_loop textbbox to_native (outcome # rest) deck = main_loop textbbox to_native rest d'
     \<and> (\<forall>body. outcome = Response 429 body \<longrightarrow>
           trace d' = trace deck @ [Print RateLimitHit, Sleep 60, Sleep REFRESH_INTERVAL])"
proof -
  define d1 where "d1 = snd (fetch_price_and_trend outcome deck)"
  define d' where "d' = sleep REFRESH_INTERVAL d1"
  have f: "fetch_price_and_trend outcome deck = (Inr (JNull, 0, JNum (Finite 0)), d1)"
    unfolding d1_def using assms by (simp add: unavailable_def prod_eq_iff)
  have m: "main_iteration textbbox to_native outcome deck = Inr d'"
    unfolding main_iteration_def f d'_def by simp
  from fetch_effects [of outcome deck] obtain evs where
    e: "trace d1 = trace deck @ evs" "\<forall>ev\<in>set evs. \<not> is_device_write ev"
      "key_images d1 = key_images deck" "key_count d1 = key_count deck"
    unfolding d1_def by (elim exE conjE)
  have t: "trace d' = trace deck @ evs @ [Sleep REFRESH_INTERVAL]"
    unfolding d'_def sleep_def using e(1) by simp
  have k: "key_images d' = key_images deck" "key_count d' = key_count deck"
    unfolding d'_def sleep_def using e(3,4) by simp_all
  have l: "main_loop textbbox to_native (outcome # rest) deck
      = main_loop textbbox to_native rest d'"
    by (simp add: m)
  have r: "\<forall>body. outcome = Response 429 body \<longrightarrow>
      trace d' = trace deck @ [Print RateLimitHit, Sleep 60, Sleep REFRESH_INTERVAL]"
    unfolding d'_def d1_def
    using assms by (auto simp: fetch_unavailable_after_429 sleep_def printed_def)
  have "main_iteration textbbox to_native outcome deck = Inr d'
     \<and> d' = sleep REFRESH_INTERVAL (snd (fetch_price_and_trend outcome deck))
     \<and> trace d' = trace deck @ evs @ [Sleep REFRESH_INTERVAL]
     \<and> (\<forall>ev\<in>set evs. \<not> is_device_write ev)
     \<and> key_images d' = key_images deck \<and> key_count d' = key_count deck
     \<and> main_loop textbbox to_native (outcome # rest) deck = main_loop textbbox to_native rest d'
     \<and> (\<forall>body. outcome = Response 429 body \<longrightarrow>
           trace d' = trace deck @ [Print RateLimitHit, Sleep 60, Sleep REFRESH_INTERVAL])"
    using m d'_def [unfolded d1_def] t e(2) k l r by (intro conjI)
  then show ?thesis by - ((rule exI)+, assumption)
qed

theorem unavailable_pass_leaves_deck_untouched_witness:
  "fst (fetch_price_and_trend (Response 429 None) sample_deck) = Inr unavailable
   \<and> (\<exists>d' evs.
       main_iteration sample_textbbox id (Response 429 None) sample_deck = Inr d'
     \<and> d' = sleep REFRESH_INTERVAL (snd (fetch_price_and_trend (Response 429 None) sample_deck))
     \<and> trace d' = trace sample_deck @ evs @ [Sleep REFRESH_INTERVAL]
     \<and> (\<forall>ev\<in>set evs. \<not> is_device_write ev)
     \<and> key_images d' = key_images sample_deck \<and> key_count d' = key_count sample_deck
     \<and> main_loop sample_textbbox id [Response 429 None, RequestFailed] sample_deck
         = main_loop sample_textbbox id [RequestFailed] d'
     \<and> (\<forall>body. Response 429 None = Response 429 body \<longrightarrow>
           trace d' = trace sample_deck @ [Print RateLimitHit, Sleep 60, Sleep REFRESH_INTERVAL]))"
proof -
  have h: "fst (fetch_price_and_trend (Response 429 None) sample_deck) = Inr unavailable"
    by (simp add: fetch_rate_limited sample_deck_def)
  from h unavailable_pass_leaves_deck_untouched [OF h, of sample_textbbox id "[RequestFailed]"]
  show ?thesis by (rule conjI)
qed

end
